theory Spec2Isabelle
  imports Main
begin

section \<open>Python values\<close>

text \<open>
  The tool-call signal that \<^verbatim>\<open>ask_llm\<close> (src/MCP_3/client.py) receives is an untyped
  Python value: the code probes it with \<^verbatim>\<open>getattr\<close>, \<^verbatim>\<open>hasattr\<close>, \<^verbatim>\<open>isinstance\<close>,
  \<^verbatim>\<open>dict(...)\<close> and \<^verbatim>\<open>str(...)\<close>. The values of the model are None, booleans, integers,
  strings, lists, dictionaries with string keys (an association list, first entry of a
  key wins) and objects. An object is described by what the code can observe of it:
  its data attributes, its \<^verbatim>\<open>model_dump()\<close> and \<^verbatim>\<open>dict()\<close> methods (absent, raising, or
  returning a value), what \<^verbatim>\<open>dict(obj)\<close> gives (\<open>None\<close>: TypeError, the object is not
  iterable), and its \<^verbatim>\<open>str\<close> and \<^verbatim>\<open>repr\<close> texts. Objects are truthy, have no \<^verbatim>\<open>get\<close>
  method and no attribute beyond the listed ones. A Python string is a list of
  characters, and a character of the model is a Unicode code point below 256: \<open>CHR 0xE9\<close>
  is the letter e with an acute accent, \<open>CHR 0xA0\<close> the no-break space. The character
  classes below are Python's on these code points; code points from 256 on are not
  values of the type.
\<close>

datatype 'a pymeth = NoMethod | MRaises | MReturns 'a

datatype pyval =
    PNone
  | PBool bool
  | PInt int
  | PStr string
  | PList "pyval list"
  | PDict "(string \<times> pyval) list"
  | PObj (obj_attrs: "(string \<times> pyval) list")
         (obj_model_dump: "pyval pymeth")
         (obj_dict: "pyval pymeth")
         (obj_items: "(string \<times> pyval) list option")
         (obj_str: string)
         (obj_repr: string)

datatype exn = AttributeError | TypeError | ValueError

text \<open>Truth value testing (\<^verbatim>\<open>if val:\<close>, \<^verbatim>\<open>not args\<close>, \<^verbatim>\<open>a or b\<close>).\<close>

fun truthy :: "pyval \<Rightarrow> bool" where
  "truthy PNone = False"
| "truthy (PBool b) = b"
| "truthy (PInt n) = (n \<noteq> 0)"
| "truthy (PStr s) = (s \<noteq> [])"
| "truthy (PList xs) = (xs \<noteq> [])"
| "truthy (PDict d) = (d \<noteq> [])"
| "truthy (PObj a m d i s r) = True"

definition py_or :: "pyval \<Rightarrow> pyval \<Rightarrow> pyval" where
  "py_or a b = (if truthy a then a else b)"

fun is_str :: "pyval \<Rightarrow> bool" where
  "is_str (PStr s) = True"
| "is_str v = False"

fun is_dict :: "pyval \<Rightarrow> bool" where
  "is_dict (PDict d) = True"
| "is_dict v = False"

fun is_list :: "pyval \<Rightarrow> bool" where
  "is_list (PList xs) = True"
| "is_list v = False"

text \<open>\<^verbatim>\<open>getattr(x, a, None)\<close> for the attribute names the code reads (name, tool,
  function, tool_name, arguments, args): none of them is an attribute of a built-in
  value.\<close>

fun getattr :: "pyval \<Rightarrow> string \<Rightarrow> pyval" where
  "getattr (PObj attrs m d i s r) a = (case map_of attrs a of Some v \<Rightarrow> v | None \<Rightarrow> PNone)"
| "getattr v a = PNone"

text \<open>\<^verbatim>\<open>d.get(k)\<close> on a dictionary, and on any value: only a dictionary has the method.\<close>

definition dict_get :: "(string \<times> pyval) list \<Rightarrow> string \<Rightarrow> pyval" where
  "dict_get d k = (case map_of d k of Some v \<Rightarrow> v | None \<Rightarrow> PNone)"

fun py_get :: "pyval \<Rightarrow> string \<Rightarrow> exn + pyval" where
  "py_get (PDict d) k = Inr (dict_get d k)"
| "py_get v k = Inl AttributeError"

text \<open>\<^verbatim>\<open>hasattr(x, "model_dump")\<close>, \<^verbatim>\<open>x.model_dump()\<close>, \<^verbatim>\<open>hasattr(x, "dict")\<close>, \<^verbatim>\<open>x.dict()\<close>.\<close>

fun has_model_dump :: "pyval \<Rightarrow> bool" where
  "has_model_dump (PObj a m d i s r) = (m \<noteq> NoMethod)"
| "has_model_dump v = False"

fun has_dict :: "pyval \<Rightarrow> bool" where
  "has_dict (PObj a m d i s r) = (d \<noteq> NoMethod)"
| "has_dict v = False"

fun call_meth :: "pyval pymeth \<Rightarrow> exn + pyval" where
  "call_meth (MReturns v) = Inr v"
| "call_meth MRaises = Inl ValueError"
| "call_meth NoMethod = Inl AttributeError"

fun call_model_dump :: "pyval \<Rightarrow> exn + pyval" where
  "call_model_dump (PObj a m d i s r) = call_meth m"
| "call_model_dump v = Inl AttributeError"

fun call_dict :: "pyval \<Rightarrow> exn + pyval" where
  "call_dict (PObj a m d i s r) = call_meth d"
| "call_dict v = Inl AttributeError"

text \<open>
  The built-in \<^verbatim>\<open>dict(x)\<close>. A dictionary is copied; an object gives its \<open>obj_items\<close>;
  None, a boolean and an integer are not iterable; a string iterates over
  one-character strings, so only the empty string converts; a list converts when every
  element is a pair: a two-element list, a two-character string or a dictionary of
  two keys. The dictionaries of the model have string keys: a pair whose first
  component is not a string is reported as an error here, where Python raises only for
  an unhashable key. \<^verbatim>\<open>ask_llm\<close> reads the result of a conversion with \<^verbatim>\<open>.get\<close> at string
  keys inside a \<^verbatim>\<open>try\<close> whose handler gives what a missing key gives, so within
  \<^verbatim>\<open>ask_llm\<close> the two agree.
\<close>

fun pair_of :: "pyval \<Rightarrow> (string \<times> pyval) option" where
  "pair_of (PList [PStr k, v]) = Some (k, v)"
| "pair_of (PStr [a, b]) = Some ([a], PStr [b])"
| "pair_of (PDict [(a, x), (b, y)]) = Some (a, PStr b)"
| "pair_of v = None"

fun dict_update :: "string \<Rightarrow> pyval \<Rightarrow> (string \<times> pyval) list \<Rightarrow> (string \<times> pyval) list" where
  "dict_update k v [] = [(k, v)]"
| "dict_update k v ((k', v') # d) = (if k = k' then (k, v) # d else (k', v') # dict_update k v d)"

fun dict_of_pairs :: "pyval list \<Rightarrow> (string \<times> pyval) list \<Rightarrow> exn + pyval" where
  "dict_of_pairs [] acc = Inr (PDict acc)"
| "dict_of_pairs (x # xs) acc =
     (case pair_of x of
        None \<Rightarrow> Inl TypeError
      | Some (k, v) \<Rightarrow> dict_of_pairs xs (dict_update k v acc))"

fun py_dict :: "pyval \<Rightarrow> exn + pyval" where
  "py_dict (PDict d) = Inr (PDict d)"
| "py_dict (PObj a m d i s r) = (case i of Some its \<Rightarrow> Inr (PDict its) | None \<Rightarrow> Inl TypeError)"
| "py_dict (PList xs) = dict_of_pairs xs []"
| "py_dict (PStr s) = (if s = [] then Inr (PDict []) else Inl ValueError)"
| "py_dict v = Inl TypeError"

section \<open>Characters and text\<close>

definition ord :: "char \<Rightarrow> nat" where
  "ord c = of_char c"

definition is_upper :: "char \<Rightarrow> bool" where
  "is_upper c = (65 \<le> ord c \<and> ord c \<le> 90)"

definition is_lower :: "char \<Rightarrow> bool" where
  "is_lower c = (97 \<le> ord c \<and> ord c \<le> 122)"

definition is_digit :: "char \<Rightarrow> bool" where
  "is_digit c = (48 \<le> ord c \<and> ord c \<le> 57)"

text \<open>The code points from 128 to 255 that \<^verbatim>\<open>str.isalnum\<close> accepts: the letters (the
  ordinal indicators, the micro sign, and the accented letters without the
  multiplication and division signs), the superscript digits and the fractions.\<close>

definition is_alnum_high :: "char \<Rightarrow> bool" where
  "is_alnum_high c =
     (ord c = 170 \<or> ord c = 178 \<or> ord c = 179 \<or> ord c = 181 \<or> ord c = 185 \<or> ord c = 186 \<or>
      (188 \<le> ord c \<and> ord c \<le> 190) \<or> (192 \<le> ord c \<and> ord c \<le> 214) \<or>
      (216 \<le> ord c \<and> ord c \<le> 246) \<or> 248 \<le> ord c)"

text \<open>\<^verbatim>\<open>\w\<close> on a \<^verbatim>\<open>str\<close>: the characters that \<^verbatim>\<open>str.isalnum\<close> accepts, and the underscore.\<close>

definition is_word :: "char \<Rightarrow> bool" where
  "is_word c = (is_upper c \<or> is_lower c \<or> is_digit c \<or> c = CHR ''_'' \<or> is_alnum_high c)"

text \<open>\<^verbatim>\<open>\s\<close> on a \<^verbatim>\<open>str\<close> and the characters \<^verbatim>\<open>str.strip()\<close> removes (\<^verbatim>\<open>str.isspace\<close>): tab,
  line feed, vertical tab, form feed, carriage return, the separators 0x1c to 0x1f, the
  space, the next-line character 0x85 and the no-break space 0xa0.\<close>

definition is_space :: "char \<Rightarrow> bool" where
  "is_space c = ((9 \<le> ord c \<and> ord c \<le> 13) \<or> (28 \<le> ord c \<and> ord c \<le> 32) \<or>
                 ord c = 133 \<or> ord c = 160)"

text \<open>The class \<^verbatim>\<open>[A-Za-z0-9_\-]\<close> of the name patterns: ASCII only, as written.\<close>

definition is_ident_char :: "char \<Rightarrow> bool" where
  "is_ident_char c = (is_upper c \<or> is_lower c \<or> is_digit c \<or> c = CHR ''_'' \<or> c = CHR ''-'')"

text \<open>The class \<^verbatim>\<open>[\w\s\.\-@]\<close> of the sender pattern.\<close>

definition is_sender_char :: "char \<Rightarrow> bool" where
  "is_sender_char c = (is_word c \<or> is_space c \<or> c = CHR ''.'' \<or> c = CHR ''-'' \<or> c = CHR ''@'')"

text \<open>The lower case of a character, as \<^verbatim>\<open>re.I\<close> compares: the ASCII capitals and the
  capitals from 0xc0 to 0xde (without the multiplication sign) move by 32.\<close>

definition to_lower :: "char \<Rightarrow> char" where
  "to_lower c =
     (if is_upper c \<or> (192 \<le> ord c \<and> ord c \<le> 214) \<or> (216 \<le> ord c \<and> ord c \<le> 222)
      then char_of (ord c + 32) else c)"

text \<open>\<^verbatim>\<open>s.strip()\<close> and \<^verbatim>\<open>s.strip(chars)\<close>.\<close>

definition strip_with :: "(char \<Rightarrow> bool) \<Rightarrow> string \<Rightarrow> string" where
  "strip_with p s = rev (dropWhile p (rev (dropWhile p s)))"

definition strip :: "string \<Rightarrow> string" where
  "strip s = strip_with is_space s"

definition strip_chars :: "string \<Rightarrow> string \<Rightarrow> string" where
  "strip_chars cs s = strip_with (\<lambda>c. c \<in> set cs) s"

subsection \<open>The texts \<^verbatim>\<open>str(x)\<close> and \<^verbatim>\<open>repr(x)\<close>\<close>

function show_nat :: "nat \<Rightarrow> string" where
  "show_nat n = (if n < 10 then [char_of (48 + n)]
                 else show_nat (n div 10) @ [char_of (48 + n mod 10)])"
  by pat_completeness auto
termination
  by (relation "measure id") auto

definition show_int :: "int \<Rightarrow> string" where
  "show_int i = (if i < 0 then CHR ''-'' # show_nat (nat (- i)) else show_nat (nat i))"

definition hex_digit :: "nat \<Rightarrow> char" where
  "hex_digit n = (if n < 10 then char_of (48 + n) else char_of (87 + n))"

text \<open>The text of a string literal as \<^verbatim>\<open>repr\<close> writes it: single quotes, unless the
  string has a single quote and no double quote; the quote and the backslash escaped,
  and the characters that are not printable (below 0x20, from 0x7f to 0xa0, and 0xad)
  written as escapes.\<close>

definition repr_quote :: "string \<Rightarrow> char" where
  "repr_quote s = (if CHR 0x27 \<in> set s \<and> CHR 0x22 \<notin> set s then CHR 0x22 else CHR 0x27)"

definition repr_char :: "char \<Rightarrow> char \<Rightarrow> string" where
  "repr_char q c =
     (if c = q \<or> c = CHR 0x5C then [CHR 0x5C, c]
      else if c = CHR 0x09 then [CHR 0x5C, CHR ''t'']
      else if c = CHR 0x0A then [CHR 0x5C, CHR ''n'']
      else if c = CHR 0x0D then [CHR 0x5C, CHR ''r'']
      else if ord c < 32 \<or> (127 \<le> ord c \<and> ord c \<le> 160) \<or> ord c = 173
        then [CHR 0x5C, CHR ''x'', hex_digit (ord c div 16), hex_digit (ord c mod 16)]
      else [c])"

definition repr_str :: "string \<Rightarrow> string" where
  "repr_str s = (let q = repr_quote s in [q] @ concat (map (repr_char q) s) @ [q])"

fun join :: "string \<Rightarrow> string list \<Rightarrow> string" where
  "join sep [] = []"
| "join sep [x] = x"
| "join sep (x # y # ys) = x @ sep @ join sep (y # ys)"

fun py_repr :: "pyval \<Rightarrow> string" where
  "py_repr PNone = ''None''"
| "py_repr (PBool b) = (if b then ''True'' else ''False'')"
| "py_repr (PInt i) = show_int i"
| "py_repr (PStr s) = repr_str s"
| "py_repr (PList xs) = ''['' @ join '', '' (map py_repr xs) @ '']''"
| "py_repr (PDict d) =
     ''{'' @ join '', '' (map (\<lambda>(k, v). repr_str k @ '': '' @ py_repr v) d) @ ''}''"
| "py_repr (PObj a m d i s r) = r"

fun py_str :: "pyval \<Rightarrow> string" where
  "py_str (PStr s) = s"
| "py_str (PObj a m d i s r) = s"
| "py_str v = py_repr v"

section \<open>The regular expressions of \<^verbatim>\<open>ask_llm\<close>\<close>

text \<open>
  \<^verbatim>\<open>re.search\<close> tries the pattern at every position from the left and returns the first
  match. Each pattern of \<^verbatim>\<open>ask_llm\<close> is modelled by a function that matches it at the
  start of a text and returns the text of group 1; \<open>re_search\<close> moves it along the text.
  \<open>re_search_b\<close> is the same for a pattern that starts with \<^verbatim>\<open>\b\<close> followed by a
  letter: it may match only where the character before is not a word character.
\<close>

fun re_search :: "(string \<Rightarrow> 'a option) \<Rightarrow> string \<Rightarrow> 'a option" where
  "re_search m [] = m []"
| "re_search m (c # cs) = (case m (c # cs) of Some g \<Rightarrow> Some g | None \<Rightarrow> re_search m cs)"

fun re_search_b :: "(string \<Rightarrow> 'a option) \<Rightarrow> bool \<Rightarrow> string \<Rightarrow> 'a option" where
  "re_search_b m prev [] = None"
| "re_search_b m prev (c # cs) =
     (case (if prev then None else m (c # cs)) of
        Some g \<Rightarrow> Some g
      | None \<Rightarrow> re_search_b m (is_word c) cs)"

definition starts_with :: "string \<Rightarrow> string \<Rightarrow> bool" where
  "starts_with p s = (take (length p) s = p)"

text \<open>Line 159: \<^verbatim>\<open>\bFunction\(|\bfunction\(|\bToolCall\(|\bChatCompletion\<close>.\<close>

definition match_repr_at :: "string \<Rightarrow> unit option" where
  "match_repr_at s =
     (if starts_with ''Function('' s \<or> starts_with ''function('' s \<or>
         starts_with ''ToolCall('' s \<or> starts_with ''ChatCompletion'' s
      then Some () else None)"

definition looks_like_repr :: "string \<Rightarrow> bool" where
  "looks_like_repr s = (re_search_b match_repr_at False s \<noteq> None)"

text \<open>Lines 160 and 170: \<^verbatim>\<open>name=[\'\"]?([A-Za-z0-9_\-]+)[\'\"]?\<close> and
  \<^verbatim>\<open>\bname=[\'\"]?([A-Za-z0-9_\-]+)\<close>. The optional quote is taken when it is there
  (giving it back never helps: the group cannot start with a quote), and the group is
  the longest run of name characters.\<close>

definition match_name_at :: "string \<Rightarrow> string option" where
  "match_name_at s =
     (if starts_with ''name='' s then
        (let t = drop 5 s;
             t' = (case t of c # cs \<Rightarrow> if c = CHR 0x27 \<or> c = CHR 0x22 then cs else t | [] \<Rightarrow> t);
             g = takeWhile is_ident_char t'
         in if g \<noteq> [] then Some g else None)
      else None)"

text \<open>Line 165: \<^verbatim>\<open>([A-Za-z0-9_\-]+)\)\s*$\<close>. After the group comes a closing
  parenthesis, which is no name character, so the group is the whole run; then only
  white space up to the end.\<close>

definition match_last_ident_at :: "string \<Rightarrow> string option" where
  "match_last_ident_at s =
     (let g = takeWhile is_ident_char s; r = dropWhile is_ident_char s
      in case r of
           c # cs \<Rightarrow> if g \<noteq> [] \<and> c = CHR '')'' \<and> list_all is_space cs then Some g else None
         | [] \<Rightarrow> None)"

text \<open>Line 198: \<^verbatim>\<open>from\s+([\w\s\.\-@]+)\<close> with \<^verbatim>\<open>re.I\<close>. \<open>is_from\<close> holds of the four
  letters in any case. \<^verbatim>\<open>\s+\<close> takes the whole run of
  white space; the group then takes the longest run of class characters. When the
  character after the white space is not of the class, \<^verbatim>\<open>\s+\<close> gives back its last
  character (if it has two or more), and the group is that one character.\<close>

definition is_from :: "string \<Rightarrow> bool" where
  "is_from f = (map to_lower f = ''from'')"

definition match_from_at :: "string \<Rightarrow> string option" where
  "match_from_at s =
     (if is_from (take 4 s) then
        (let t = drop 4 s; ws = takeWhile is_space t; r = dropWhile is_space t
         in if ws = [] then None
            else if takeWhile is_sender_char r \<noteq> [] then Some (takeWhile is_sender_char r)
            else if 2 \<le> length ws then Some [last ws]
            else None)
      else None)"

section \<open>Resolution of a tool call (\<^verbatim>\<open>ask_llm\<close>, lines 82 to 212)\<close>

text \<open>Lines 86 to 98: the dictionary form \<^verbatim>\<open>tc_dict\<close> of the tool call. A method that
  raises, or a failing \<^verbatim>\<open>dict(tool_call)\<close>, leaves the empty dictionary; what a method
  returns is kept whatever it is.\<close>

definition to_tc_dict :: "pyval \<Rightarrow> pyval" where
  "to_tc_dict tool_call =
     (if has_model_dump tool_call then
        (case call_model_dump tool_call of Inr v \<Rightarrow> v | Inl e \<Rightarrow> PDict [])
      else if has_dict tool_call then
        (case call_dict tool_call of Inr v \<Rightarrow> v | Inl e \<Rightarrow> PDict [])
      else
        (case py_dict tool_call of Inr v \<Rightarrow> v | Inl e \<Rightarrow> PDict []))"

text \<open>Lines 100 to 105: the first attribute of the list with a truthy value.\<close>

fun probe_attrs :: "pyval \<Rightarrow> string list \<Rightarrow> pyval" where
  "probe_attrs tool_call [] = PNone"
| "probe_attrs tool_call (attr # attrs) =
     (let val = getattr tool_call attr
      in if truthy val then val else probe_attrs tool_call attrs)"

definition name_attrs :: "string list" where
  "name_attrs = [''name'', ''tool'', ''function'', ''tool_name'']"

text \<open>Line 107.\<close>

definition attr_raw_args :: "pyval \<Rightarrow> pyval" where
  "attr_raw_args tool_call = py_or (getattr tool_call ''arguments'') (getattr tool_call ''args'')"

text \<open>Lines 109 to 118: values of \<^verbatim>\<open>tc_dict\<close> are preferred. When \<^verbatim>\<open>tc_dict\<close> is no
  dictionary the first \<^verbatim>\<open>.get\<close> raises and the handler passes: both variables keep
  their values.\<close>

definition prefer_dict :: "pyval \<Rightarrow> pyval \<times> pyval \<Rightarrow> pyval \<times> pyval" where
  "prefer_dict tc_dict vars =
     (case vars of (tool_name, raw_args) \<Rightarrow>
       (case tc_dict of
          PDict d \<Rightarrow>
            (let f = dict_get d ''function'';
                 dict_name = py_or (py_or (dict_get d ''name'') (dict_get d ''tool''))
                                   (if is_str f then f else PNone);
                 dict_args = py_or (py_or (dict_get d ''arguments'') (dict_get d ''args''))
                                   (dict_get d ''arguments_json'')
             in (if truthy dict_name then dict_name else tool_name,
                 if dict_args \<noteq> PNone \<and> raw_args = PNone then dict_args else raw_args))
        | _ \<Rightarrow> (tool_name, raw_args)))"

text \<open>Lines 128 to 138 and 144 to 152: the dictionary of a value that is neither None,
  a string nor a dictionary, inside a \<^verbatim>\<open>try\<close>.\<close>

definition dump_of :: "pyval \<Rightarrow> exn + pyval" where
  "dump_of v =
     (if has_model_dump v then call_model_dump v
      else if has_dict v then call_dict v
      else py_dict v)"

text \<open>Lines 120 to 138: a nested tool name.\<close>

definition nested_name :: "pyval \<Rightarrow> pyval" where
  "nested_name tool_name =
     (case tool_name of
        PDict d \<Rightarrow> py_or (dict_get d ''name'') (dict_get d ''tool'')
      | PNone \<Rightarrow> PNone
      | PStr s \<Rightarrow> PStr s
      | _ \<Rightarrow>
         (let name_attr = getattr tool_name ''name''
          in if truthy name_attr then name_attr
             else (case dump_of tool_name of
                     Inr (PDict tcd) \<Rightarrow>
                       py_or (py_or (dict_get tcd ''name'') (dict_get tcd ''tool''))
                             (PStr (py_str tool_name))
                   | _ \<Rightarrow> PStr (py_str tool_name))))"

text \<open>Lines 140 to 152: the raw arguments. The \<^verbatim>\<open>.get\<close> calls of line 142 stand outside
  every \<^verbatim>\<open>try\<close>: when \<^verbatim>\<open>tc_dict\<close> is no dictionary the AttributeError leaves
  \<^verbatim>\<open>ask_llm\<close>.\<close>

definition convert_raw_args :: "pyval \<Rightarrow> pyval \<Rightarrow> exn + pyval" where
  "convert_raw_args tc_dict raw_args =
     (if raw_args = PNone then
        (case py_get tc_dict ''arguments'' of
           Inl e \<Rightarrow> Inl e
         | Inr a \<Rightarrow>
             if truthy a then Inr a
             else (case py_get tc_dict ''args'' of
                     Inl e \<Rightarrow> Inl e
                   | Inr b \<Rightarrow> if truthy b then Inr b else py_get tc_dict ''arguments_json''))
      else if \<not> (is_str raw_args \<or> is_dict raw_args \<or> is_list raw_args) then
        (case dump_of raw_args of
           Inr v \<Rightarrow> Inr v
         | Inl e \<Rightarrow> Inr (PStr (py_str raw_args)))
      else Inr raw_args)"

text \<open>Lines 154 to 179: the name is read out of a text that looks like the \<^verbatim>\<open>repr\<close> of a
  call object. No step of the \<^verbatim>\<open>try\<close> raises on the values of the model, so its
  handler is not modelled. After this step the name is a string.\<close>

definition normalize_name :: "pyval \<Rightarrow> string" where
  "normalize_name tool_name =
     (case tool_name of
        PStr s \<Rightarrow>
          if looks_like_repr s then
            (case re_search match_name_at s of
               Some g \<Rightarrow> g
             | None \<Rightarrow> (case re_search match_last_ident_at s of Some g \<Rightarrow> g | None \<Rightarrow> s))
          else s
      | _ \<Rightarrow>
          (let rep = py_str tool_name
           in case re_search_b match_name_at False rep of Some g \<Rightarrow> g | None \<Rightarrow> rep))"

text \<open>Lines 100 to 118: the tool name and the raw arguments as probed on the tool call
  and on its dictionary form.\<close>

definition probe :: "pyval \<Rightarrow> pyval \<times> pyval" where
  "probe tool_call =
     prefer_dict (to_tc_dict tool_call) (probe_attrs tool_call name_attrs, attr_raw_args tool_call)"

text \<open>Lines 82 to 179 together: the tool name, and with it the raw arguments.\<close>

definition extract_name :: "pyval \<Rightarrow> string" where
  "extract_name tool_call = normalize_name (nested_name (fst (probe tool_call)))"

definition extract_call :: "pyval \<Rightarrow> exn + (string \<times> pyval)" where
  "extract_call tool_call =
     (case convert_raw_args (to_tc_dict tool_call) (snd (probe tool_call)) of
        Inl e \<Rightarrow> Inl e
      | Inr raw_args \<Rightarrow> Inr (extract_name tool_call, raw_args))"

text \<open>Lines 186 to 190. \<^verbatim>\<open>json.loads\<close> is a parameter: \<open>None\<close> when it raises.\<close>

definition parse_args :: "(string \<Rightarrow> pyval option) \<Rightarrow> pyval \<Rightarrow> pyval" where
  "parse_args json_loads raw_args =
     (case raw_args of
        PStr s \<Rightarrow> (case json_loads s of Some v \<Rightarrow> v | None \<Rightarrow> PDict [])
      | _ \<Rightarrow> py_or raw_args (PDict []))"

text \<open>Lines 196 to 205: the query of the default arguments of \<^verbatim>\<open>search_emails\<close>;
  \<open>clean_sender\<close> is \<^verbatim>\<open>m.group(1).strip().strip('\"\'?.')\<close>.\<close>

definition clean_sender :: "string \<Rightarrow> string" where
  "clean_sender g = strip_chars [CHR 0x22, CHR 0x27, CHR ''?'', CHR ''.''] (strip g)"

definition search_query :: "string \<Rightarrow> string" where
  "search_query question =
     (case re_search match_from_at question of
        Some g \<Rightarrow> (let sender = clean_sender g in ''from:'' @ [CHR 0x22] @ sender @ [CHR 0x22])
      | None \<Rightarrow> question)"

datatype resolution =
    NoToolIdentified
  | MissingRequiredArgument
  | Resolved string pyval

text \<open>Lines 192 to 212: default arguments per tool, when the model gave none.\<close>

definition with_defaults :: "string \<Rightarrow> string \<Rightarrow> pyval \<Rightarrow> resolution" where
  "with_defaults question tool_name args =
     (if \<not> truthy args then
        (if tool_name = ''search_emails'' then
           Resolved tool_name (PDict [(''query'', PStr (search_query question)), (''max_results'', PInt 5)])
         else if tool_name = ''get_unread_emails'' then
           Resolved tool_name (PDict [(''max_results'', PInt 5)])
         else if tool_name = ''get_email_full'' then MissingRequiredArgument
         else Resolved tool_name args)
      else Resolved tool_name args)"

text \<open>Lines 82 to 212.\<close>

definition resolve :: "(string \<Rightarrow> pyval option) \<Rightarrow> string \<Rightarrow> pyval \<Rightarrow> exn + resolution" where
  "resolve json_loads question tool_call =
     (case extract_call tool_call of
        Inl e \<Rightarrow> Inl e
      | Inr (tool_name, raw_args) \<Rightarrow>
          if tool_name = [] then Inr NoToolIdentified
          else Inr (with_defaults question tool_name (parse_args json_loads raw_args)))"

section \<open>Dispatch and the whole of \<^verbatim>\<open>ask_llm\<close>\<close>

text \<open>
  The collaborators of \<^verbatim>\<open>ask_llm\<close> are parameters: the first completion call gives a
  message (its tool calls and its content), \<^verbatim>\<open>json.loads\<close> gives a value or raises
  (\<open>None\<close>), \<^verbatim>\<open>requests.post\<close> gives no reply (it raises) or a reply with a status and
  the value of its body (\<open>None\<close> when \<^verbatim>\<open>resp.json()\<close> raises), and the second completion
  call gives the text of the final answer. What \<^verbatim>\<open>ask_llm\<close> does is the list of its
  effects in order, or the exception that leaves it.
\<close>

record message =
  tool_calls :: "pyval list"
  content :: string

datatype http_reply = NoReply | Reply nat "pyval option"

record env =
  llm_first :: "string \<Rightarrow> message"
  json_loads :: "string \<Rightarrow> pyval option"
  http_post :: "string \<Rightarrow> pyval option \<Rightarrow> http_reply"
  llm_final :: "string \<Rightarrow> string \<Rightarrow> pyval \<Rightarrow> string"

datatype dispatch_failure = TransportFailure | StatusFailure nat | DecodeFailure

datatype event =
    Print string
  | PrintError dispatch_failure
  | LLM_First string
  | HTTP_Post string "pyval option"
  | LLM_Final string string pyval

definition MCP_BASE :: string where
  "MCP_BASE = ''http://localhost:8000/tools''"

definition known_tools :: "string list" where
  "known_tools = [''get_unread_emails'', ''search_emails'', ''get_email_full'']"

text \<open>Line 217 and lines 221 to 224: the endpoint and the body of the POST.\<close>

definition endpoint_of :: "string \<Rightarrow> string" where
  "endpoint_of tool_name = MCP_BASE @ ''/'' @ tool_name"

definition body_of :: "pyval \<Rightarrow> pyval option" where
  "body_of args = (if truthy args then Some args else None)"

text \<open>Lines 225 to 229: \<^verbatim>\<open>raise_for_status\<close> raises for a status from 400 to 599;
  every exception of the \<^verbatim>\<open>try\<close> is caught.\<close>

definition read_reply :: "http_reply \<Rightarrow> dispatch_failure + pyval" where
  "read_reply reply =
     (case reply of
        NoReply \<Rightarrow> Inl TransportFailure
      | Reply status data \<Rightarrow>
          if 400 \<le> status \<and> status < 600 then Inl (StatusFailure status)
          else (case data of None \<Rightarrow> Inl DecodeFailure | Some d \<Rightarrow> Inr d))"

definition dispatch :: "env \<Rightarrow> string \<Rightarrow> pyval \<Rightarrow> dispatch_failure + pyval" where
  "dispatch e tool_name args = read_reply (http_post e (endpoint_of tool_name) (body_of args))"

text \<open>Lines 214 to 243: from the resolved call to the final answer.\<close>

definition call_tool :: "env \<Rightarrow> string \<Rightarrow> string \<Rightarrow> pyval \<Rightarrow> event list" where
  "call_tool e question tool_name args =
     [Print (''LLM decided to call MCP tool: '' @ tool_name @ '' with args='' @ py_str args),
      HTTP_Post (endpoint_of tool_name) (body_of args)] @
     (case dispatch e tool_name args of
        Inl failure \<Rightarrow> [PrintError failure]
      | Inr data \<Rightarrow>
          [LLM_Final question tool_name data,
           Print (CHR 0x0A # ''Final Answer:''),
           Print (llm_final e question tool_name data)])"

definition ask_llm :: "env \<Rightarrow> string \<Rightarrow> exn + event list" where
  "ask_llm e question =
     (let msg = llm_first e question;
          start = [Print (CHR 0x0A # ''User: '' @ question), LLM_First question]
      in case tool_calls msg of
           [] \<Rightarrow> Inr (start @ [Print ''LLM Answer:'', Print (content msg)])
         | tool_call # others \<Rightarrow>
             (case resolve (json_loads e) question tool_call of
                Inl ex \<Rightarrow> Inl ex
              | Inr NoToolIdentified \<Rightarrow>
                  Inr (start @ [Print ''Could not determine tool name from LLM response.''])
              | Inr MissingRequiredArgument \<Rightarrow>
                  Inr (start @ [Print ''Tool get_email_full requires a message_id. Please ask to open a specific email or search first.''])
              | Inr (Resolved tool_name args) \<Rightarrow>
                  Inr (start @ call_tool e question tool_name args)))"

section \<open>A reader of JSON texts\<close>

text \<open>
  \<^verbatim>\<open>json.loads\<close> belongs to Python's library and is a parameter of the model. To run
  the model on a concrete text, \<open>json_loads_model\<close> reads the JSON texts made of objects,
  arrays, strings with the two-character escapes, integers (of at most 4300 digits,
  the limit of Python's conversion), true, false and null. It is not \<^verbatim>\<open>json.loads\<close>
  outside this fragment: a text with a fraction, an exponent, a \<^verbatim>\<open>\u\<close> escape or one of
  the constants \<^verbatim>\<open>NaN\<close> and \<^verbatim>\<open>Infinity\<close> is reported as an error, where \<^verbatim>\<open>json.loads\<close>
  gives a value. The properties below take \<^verbatim>\<open>json.loads\<close> as a parameter and use
  \<open>json_loads_model\<close> only on texts of the fragment. The first argument of the readers bounds the number of
  nested calls; every call follows one character read at least, so the length of the
  text plus one is enough.
\<close>

definition json_ws :: "char \<Rightarrow> bool" where
  "json_ws c = (c = CHR '' '' \<or> c = CHR 0x09 \<or> c = CHR 0x0A \<or> c = CHR 0x0D)"

definition json_skip :: "string \<Rightarrow> string" where
  "json_skip s = dropWhile json_ws s"

definition unescape :: "char \<Rightarrow> char option" where
  "unescape c =
     (if c = CHR 0x22 \<or> c = CHR 0x5C \<or> c = CHR ''/'' then Some c
      else if c = CHR ''b'' then Some (CHR 0x08)
      else if c = CHR ''f'' then Some (CHR 0x0C)
      else if c = CHR ''n'' then Some (CHR 0x0A)
      else if c = CHR ''r'' then Some (CHR 0x0D)
      else if c = CHR ''t'' then Some (CHR 0x09)
      else None)"

fun json_string :: "string \<Rightarrow> string \<Rightarrow> (string \<times> string) option" where
  "json_string [] acc = None"
| "json_string [c] acc = (if c = CHR 0x22 then Some (rev acc, []) else None)"
| "json_string (c # d # cs) acc =
     (if c = CHR 0x22 then Some (rev acc, d # cs)
      else if c = CHR 0x5C then
        (case unescape d of Some x \<Rightarrow> json_string cs (x # acc) | None \<Rightarrow> None)
      else if ord c < 32 then None
      else json_string (d # cs) (c # acc))"

definition digits_value :: "string \<Rightarrow> int" where
  "digits_value ds = foldl (\<lambda>a c. 10 * a + int (ord c - 48)) 0 ds"

definition json_int :: "string \<Rightarrow> (pyval \<times> string) option" where
  "json_int s =
     (let neg = starts_with ''-'' s;
          t = (if neg then drop 1 s else s);
          ds = takeWhile is_digit t;
          r = dropWhile is_digit t
      in if ds = [] \<or> (2 \<le> length ds \<and> hd ds = CHR ''0'') \<or> 4300 < length ds then None
         else if starts_with ''.'' r \<or> starts_with ''e'' r \<or> starts_with ''E'' r then None
         else Some (PInt (if neg then - digits_value ds else digits_value ds), r))"

fun json_value :: "nat \<Rightarrow> string \<Rightarrow> (pyval \<times> string) option"
  and json_elems :: "nat \<Rightarrow> string \<Rightarrow> pyval list \<Rightarrow> (pyval \<times> string) option"
  and json_members :: "nat \<Rightarrow> string \<Rightarrow> (string \<times> pyval) list \<Rightarrow> (pyval \<times> string) option"
where
  "json_value 0 s = None"
| "json_value (Suc n) s =
     (case json_skip s of
        [] \<Rightarrow> None
      | c # cs \<Rightarrow>
          if c = CHR ''{'' then
            (if starts_with ''}'' (json_skip cs) then Some (PDict [], drop 1 (json_skip cs))
             else json_members n cs [])
          else if c = CHR ''['' then
            (if starts_with '']'' (json_skip cs) then Some (PList [], drop 1 (json_skip cs))
             else json_elems n cs [])
          else if c = CHR 0x22 then
            (case json_string cs [] of Some (str, r) \<Rightarrow> Some (PStr str, r) | None \<Rightarrow> None)
          else if starts_with ''true'' (c # cs) then Some (PBool True, drop 4 (c # cs))
          else if starts_with ''false'' (c # cs) then Some (PBool False, drop 5 (c # cs))
          else if starts_with ''null'' (c # cs) then Some (PNone, drop 4 (c # cs))
          else json_int (c # cs))"
| "json_elems 0 s acc = None"
| "json_elems (Suc n) s acc =
     (case json_value n s of
        None \<Rightarrow> None
      | Some (v, r) \<Rightarrow>
          (case json_skip r of
             [] \<Rightarrow> None
           | c # r' \<Rightarrow>
               if c = CHR '','' then json_elems n r' (acc @ [v])
               else if c = CHR '']'' then Some (PList (acc @ [v]), r')
               else None))"
| "json_members 0 s acc = None"
| "json_members (Suc n) s acc =
     (case json_skip s of
        [] \<Rightarrow> None
      | c # cs \<Rightarrow>
          if c \<noteq> CHR 0x22 then None
          else
            (case json_string cs [] of
               None \<Rightarrow> None
             | Some (k, r) \<Rightarrow>
                 (case json_skip r of
                    [] \<Rightarrow> None
                  | c2 # r2 \<Rightarrow>
                      if c2 \<noteq> CHR '':'' then None
                      else
                        (case json_value n r2 of
                           None \<Rightarrow> None
                         | Some (v, r3) \<Rightarrow>
                             (case json_skip r3 of
                                [] \<Rightarrow> None
                              | c3 # r4 \<Rightarrow>
                                  if c3 = CHR '','' then json_members n r4 (dict_update k v acc)
                                  else if c3 = CHR ''}'' then Some (PDict (dict_update k v acc), r4)
                                  else None)))))"

definition json_loads_model :: "string \<Rightarrow> pyval option" where
  "json_loads_model s =
     (case json_value (Suc (length s)) s of
        Some (v, r) \<Rightarrow> if json_skip r = [] then Some v else None
      | None \<Rightarrow> None)"

section \<open>Vocabulary of the properties\<close>

text \<open>The POST events and the second completion call in a list of effects.\<close>

fun is_post :: "event \<Rightarrow> bool" where
  "is_post (HTTP_Post ep body) = True"
| "is_post ev = False"


text \<open>
  Example inputs. \<open>sdk_tool_call\<close> has the shape of the tool call object of the OpenAI
  SDK: the attributes \<^verbatim>\<open>id\<close>, \<^verbatim>\<open>function\<close> (an object with \<^verbatim>\<open>arguments\<close> and \<^verbatim>\<open>name\<close>) and
  \<^verbatim>\<open>type\<close>, a \<^verbatim>\<open>model_dump()\<close> that gives nested dictionaries, and the same text for
  \<^verbatim>\<open>str\<close> and \<^verbatim>\<open>repr\<close>. \<open>plain_call\<close> is an
  object with the given attributes and no method. \<open>stub_env\<close> answers every question
  with one tool call and every POST with one reply.
\<close>

definition sdk_function :: "string \<Rightarrow> string \<Rightarrow> pyval" where
  "sdk_function name arguments =
     (let fields = [(''arguments'', PStr arguments), (''name'', PStr name)];
          shown = [''arguments='' @ repr_str arguments, ''name='' @ repr_str name];
          text = ''Function('' @ join '', '' shown @ '')''
      in PObj fields (MReturns (PDict fields)) (MReturns (PDict fields)) (Some fields) text text)"

definition sdk_tool_call :: "string \<Rightarrow> string \<Rightarrow> pyval" where
  "sdk_tool_call name arguments =
     (let f = sdk_function name arguments;
          fields = [(''id'', PStr ''call_1''), (''function'', f), (''type'', PStr ''function'')];
          dump = [(''id'', PStr ''call_1''),
                  (''function'', PDict [(''arguments'', PStr arguments), (''name'', PStr name)]),
                  (''type'', PStr ''function'')];
          shown = [''id='call_1' '', ''function='' @ py_repr f, ''type='function' ''];
          text = ''ChatCompletionMessageToolCall('' @ join '', '' shown @ '')''
      in PObj fields (MReturns (PDict dump)) (MReturns (PDict dump)) (Some fields) text text)"

definition plain_call :: "(string \<times> pyval) list \<Rightarrow> pyval" where
  "plain_call attrs = PObj attrs NoMethod NoMethod None ''<tool call>'' ''<tool call>''"

definition stub_env :: "pyval \<Rightarrow> http_reply \<Rightarrow> env" where
  "stub_env tool_call reply =
     \<lparr> llm_first = (\<lambda>question. \<lparr> tool_calls = [tool_call], content = [] \<rparr>),
       json_loads = json_loads_model,
       http_post = (\<lambda>endpoint body. reply),
       llm_final = (\<lambda>question tool_name data. ''answer'') \<rparr>"

text \<open>The raw arguments from which argument extraction gives a mapping: an absent value,
  a mapping, and a string that \<^verbatim>\<open>json.loads\<close> rejects or reads as a mapping.\<close>

definition mapping_source :: "(string \<Rightarrow> pyval option) \<Rightarrow> pyval \<Rightarrow> bool" where
  "mapping_source jl raw_args =
     (case raw_args of
        PNone \<Rightarrow> True
      | PDict d \<Rightarrow> True
      | PStr s \<Rightarrow> (case jl s of None \<Rightarrow> True | Some v \<Rightarrow> is_dict v)
      | _ \<Rightarrow> False)"

text \<open>
  The sender pattern in the words of its description, apart from the matcher above.
  \<open>spells_from\<close>: the four letters of \<^verbatim>\<open>from\<close>, each in either case. \<open>pattern_starts\<close>: the
  text starts with these letters, a white space character and a character of the
  sender class. \<open>from_pattern_in\<close>: the pattern starts somewhere in the question.
  \<open>first_at\<close>: the pattern starts at no position before the given one.
\<close>

definition spells_from :: "string \<Rightarrow> bool" where
  "spells_from f =
     (case f of
        [a, b, c, d] \<Rightarrow>
          (a = CHR ''f'' \<or> a = CHR ''F'') \<and> (b = CHR ''r'' \<or> b = CHR ''R'') \<and>
          (c = CHR ''o'' \<or> c = CHR ''O'') \<and> (d = CHR ''m'' \<or> d = CHR ''M'')
      | _ \<Rightarrow> False)"

definition pattern_starts :: "string \<Rightarrow> bool" where
  "pattern_starts s =
     (spells_from (take 4 s) \<and>
      (case drop 4 s of w # c # rest \<Rightarrow> is_space w \<and> is_sender_char c | _ \<Rightarrow> False))"

definition from_pattern_in :: "string \<Rightarrow> bool" where
  "from_pattern_in q = list_ex (\<lambda>i. pattern_starts (drop i q)) [0..<length q]"

definition first_at :: "nat \<Rightarrow> string \<Rightarrow> bool" where
  "first_at n q = list_all (\<lambda>i. \<not> pattern_starts (drop i q)) [0..<n]"

text \<open>
  Where a tool call exposes its name. \<open>holds_name v n\<close>: the value \<open>v\<close> carries the name
  \<open>n\<close>, as a string or one level inside (a dictionary with the key \<^verbatim>\<open>name\<close> or
  \<^verbatim>\<open>tool\<close>, an object with the attribute \<^verbatim>\<open>name\<close>). \<open>entry\<close> reads the dictionary form of
  the tool call. \<open>exposes tool_call loc n\<close>: the name \<open>n\<close> is at the location \<open>loc\<close> and
  at no other probed location: an attribute of the list \<open>name_attrs\<close>, or an entry of
  the dictionary form under \<^verbatim>\<open>name\<close> or \<^verbatim>\<open>tool\<close> (a string or nested) or under
  \<^verbatim>\<open>function\<close> (a string only).
\<close>

datatype location = Attribute string | Entry string

fun holds_name :: "pyval \<Rightarrow> string \<Rightarrow> bool" where
  "holds_name (PStr s) n = (s = n)"
| "holds_name (PDict d) n =
     (dict_get d ''name'' = PStr n \<or> (\<not> truthy (dict_get d ''name'') \<and> dict_get d ''tool'' = PStr n))"
| "holds_name (PObj a m d i s r) n = (getattr (PObj a m d i s r) ''name'' = PStr n)"
| "holds_name v n = False"

definition entry :: "pyval \<Rightarrow> string \<Rightarrow> pyval" where
  "entry tool_call k = (case to_tc_dict tool_call of PDict d \<Rightarrow> dict_get d k | _ \<Rightarrow> PNone)"

definition no_entry_name :: "pyval \<Rightarrow> bool" where
  "no_entry_name tool_call =
     (\<not> truthy (entry tool_call ''name'') \<and> \<not> truthy (entry tool_call ''tool'') \<and>
      \<not> (is_str (entry tool_call ''function'') \<and> truthy (entry tool_call ''function'')))"

fun exposes :: "pyval \<Rightarrow> location \<Rightarrow> string \<Rightarrow> bool" where
  "exposes tool_call (Attribute a) n =
     (a \<in> set name_attrs \<and> holds_name (getattr tool_call a) n \<and>
      list_all (\<lambda>b. b = a \<or> \<not> truthy (getattr tool_call b)) name_attrs \<and>
      no_entry_name tool_call)"
| "exposes tool_call (Entry k) n =
     (list_all (\<lambda>b. \<not> truthy (getattr tool_call b)) name_attrs \<and>
      list_all (\<lambda>j. j = k \<or> \<not> truthy (entry tool_call j)) [''name'', ''tool'', ''function''] \<and>
      ((k = ''name'' \<or> k = ''tool'') \<and> holds_name (entry tool_call k) n \<or>
       k = ''function'' \<and> entry tool_call k = PStr n))"

text \<open>The first truthy value of a list of probed values, None when there is none.\<close>

fun first_truthy :: "pyval list \<Rightarrow> pyval" where
  "first_truthy [] = PNone"
| "first_truthy (v # vs) = (if truthy v then v else first_truthy vs)"

section \<open>Properties\<close>

subsection \<open>Facts about the example inputs\<close>

lemma stub_env_simps:
  "tool_calls (llm_first (stub_env tool_call reply) question) = [tool_call]"
  "json_loads (stub_env tool_call reply) = json_loads_model"
  "http_post (stub_env tool_call reply) endpoint body = reply"
  by (simp_all add: stub_env_def)

lemma extract_call_repr_name:
  "extract_call (PObj [(''name'', PStr ''Function(name='search_emails', arguments={})'')]
                   NoMethod NoMethod None s r) = Inr (''search_emails'', PNone)"
  by code_simp

lemma extract_call_sdk_get_email_full:
  "extract_call (sdk_tool_call ''get_email_full'' ''{}'') = Inr (''get_email_full'', PNone)"
  by code_simp



lemma ask_llm_sdk_search:
  "ask_llm (stub_env (sdk_tool_call ''search_emails'' ''{}'') NoReply) ''mail from Bob''
     = Inr [Print (CHR 0x0A # ''User: mail from Bob''), LLM_First ''mail from Bob'',
            Print (''LLM decided to call MCP tool: search_emails with args='' @
                   py_str (PDict [(''query'', PStr (''from:'' @ [CHR 0x22] @ ''Bob'' @ [CHR 0x22])),
                                  (''max_results'', PInt 5)])),
            HTTP_Post ''http://localhost:8000/tools/search_emails''
              (Some (PDict [(''query'', PStr (''from:'' @ [CHR 0x22] @ ''Bob'' @ [CHR 0x22])),
                            (''max_results'', PInt 5)])),
            PrintError TransportFailure]"
  by code_simp

lemma json_loads_model_examples:
  \<open>json_loads_model ''{"max_results": 3}'' = Some (PDict [(''max_results'', PInt 3)])\<close>
  \<open>json_loads_model ''not json'' = None\<close>
  \<open>json_loads_model ''[1, 2]'' = Some (PList [PInt 1, PInt 2])\<close>
  by code_simp+

subsection \<open>The name inside a serialized call object\<close>

text \<open>
  C7. When the extracted name is the text \<^verbatim>\<open>Function(name='search_emails', arguments={})\<close>,
  the sanitization of the name gives \<^verbatim>\<open>search_emails\<close>, and a tool call that carries
  this text as its \<^verbatim>\<open>name\<close> attribute resolves to the tool \<^verbatim>\<open>search_emails\<close> (here with
  the default arguments, since the call has none).
\<close>

theorem repr_name_sanitized:
  "normalize_name (PStr ''Function(name='search_emails', arguments={})'') = ''search_emails'' \<and>
   resolve jl q (PObj [(''name'', PStr ''Function(name='search_emails', arguments={})'')]
                   NoMethod NoMethod None s r)
     = Inr (Resolved ''search_emails''
             (PDict [(''query'', PStr (search_query q)), (''max_results'', PInt 5)]))"
proof
  show "normalize_name (PStr ''Function(name='search_emails', arguments={})'') = ''search_emails''"
    by code_simp
next
  show "resolve jl q (PObj [(''name'', PStr ''Function(name='search_emails', arguments={})'')]
                   NoMethod NoMethod None s r)
     = Inr (Resolved ''search_emails''
             (PDict [(''query'', PStr (search_query q)), (''max_results'', PInt 5)]))"
    by (simp add: resolve_def extract_call_repr_name parse_args_def py_or_def with_defaults_def)
qed

subsection \<open>A required argument that cannot be defaulted\<close>

text \<open>
  C5. When the resolved tool is \<^verbatim>\<open>get_email_full\<close> and the extracted arguments are empty,
  resolution fails with MissingRequiredArgument, \<^verbatim>\<open>ask_llm\<close> ends with the diagnostic
  line and makes no POST for the question.
\<close>

theorem missing_message_id_stops:
  assumes "tool_calls (llm_first e question) = tool_call # others"
      and "extract_call tool_call = Inr (''get_email_full'', raw_args)"
      and "\<not> truthy (parse_args (json_loads e) raw_args)"
  shows "resolve (json_loads e) question tool_call = Inr MissingRequiredArgument \<and>
         (\<exists>evs. ask_llm e question = Inr evs \<and> filter is_post evs = [] \<and>
            last evs = Print ''Tool get_email_full requires a message_id. Please ask to open a specific email or search first.'')"
proof -
  have r: "resolve (json_loads e) question tool_call = Inr MissingRequiredArgument"
    using assms(2,3) by (simp add: resolve_def with_defaults_def)
  show ?thesis
    using assms(1) r by (simp add: ask_llm_def)
qed

theorem missing_message_id_stops_witness:
  "resolve json_loads_model ''open it'' (sdk_tool_call ''get_email_full'' ''{}'')
     = Inr MissingRequiredArgument \<and>
   (\<exists>evs. ask_llm (stub_env (sdk_tool_call ''get_email_full'' ''{}'') NoReply) ''open it'' = Inr evs \<and>
      filter is_post evs = [] \<and>
      last evs = Print ''Tool get_email_full requires a message_id. Please ask to open a specific email or search first.'')"
proof -
  let ?tc = "sdk_tool_call ''get_email_full'' ''{}''"
  let ?e = "stub_env ?tc NoReply"
  have a: "tool_calls (llm_first ?e ''open it'') = ?tc # []"
    by (simp add: stub_env_simps)
  have c: "\<not> truthy (parse_args (json_loads ?e) PNone)"
    by (simp add: parse_args_def py_or_def)
  from missing_message_id_stops [OF a extract_call_sdk_get_email_full c]
  show ?thesis
    unfolding stub_env_simps(2) .
qed

subsection \<open>From resolution to dispatch\<close>

lemma resolve_Resolved:
  assumes "resolve jl question tool_call = Inr (Resolved tool_name args)"
  shows "\<exists>raw_args. extract_call tool_call = Inr (tool_name, raw_args) \<and> tool_name \<noteq> [] \<and>
           with_defaults question tool_name (parse_args jl raw_args) = Resolved tool_name args"
  using assms
  by (auto simp: resolve_def with_defaults_def split: sum.splits prod.splits if_splits)

lemma with_defaults_known:
  assumes "with_defaults question tool_name parsed = Resolved tool_name args"
      and "tool_name \<in> set known_tools"
  shows "truthy args"
  using assms by (auto simp: with_defaults_def known_tools_def split: if_splits)



lemma with_defaults_is_dict:
  assumes "with_defaults question tool_name parsed = Resolved tool_name args" and "is_dict parsed"
  shows "is_dict args"
  using assms by (auto simp: with_defaults_def split: if_splits)

lemma parse_args_mapping_source:
  assumes "mapping_source jl raw_args"
  shows "is_dict (parse_args jl raw_args)"
  using assms
  by (auto simp: mapping_source_def parse_args_def py_or_def split: pyval.splits option.splits)


lemma ask_llm_post:
  assumes "ask_llm e question = Inr evs" and "HTTP_Post ep body \<in> set evs"
  shows "\<exists>tool_call others tool_name args.
           tool_calls (llm_first e question) = tool_call # others \<and>
           resolve (json_loads e) question tool_call = Inr (Resolved tool_name args) \<and>
           ep = endpoint_of tool_name \<and> body = body_of args"
  using assms
  by (auto simp: ask_llm_def call_tool_def Let_def
           split: list.splits sum.splits resolution.splits)






text \<open>
  C1, as the code has it. For every POST that \<^verbatim>\<open>ask_llm\<close> makes, the resolved tool name is
  a non-empty string and the POST goes to the endpoint of that name, but the name is
  not checked against the three known names. The arguments are never None when the name
  is a known one, and they are a mapping whenever the raw arguments were absent, a
  mapping, or a string that \<^verbatim>\<open>json.loads\<close> rejects or reads as a mapping.
\<close>

theorem dispatched_call_shape:
  assumes "ask_llm e question = Inr evs" and "HTTP_Post ep body \<in> set evs"
  shows "\<exists>tool_call others tool_name raw_args args.
           tool_calls (llm_first e question) = tool_call # others \<and>
           extract_call tool_call = Inr (tool_name, raw_args) \<and>
           resolve (json_loads e) question tool_call = Inr (Resolved tool_name args) \<and>
           tool_name \<noteq> [] \<and> ep = endpoint_of tool_name \<and> body = body_of args \<and>
           (tool_name \<in> set known_tools \<longrightarrow> args \<noteq> PNone) \<and>
           (mapping_source (json_loads e) raw_args \<longrightarrow> is_dict args)"
proof -
  from ask_llm_post [OF assms] obtain tool_call others tool_name args where
    t: "tool_calls (llm_first e question) = tool_call # others" and
    r: "resolve (json_loads e) question tool_call = Inr (Resolved tool_name args)" and
    p: "ep = endpoint_of tool_name" "body = body_of args"
    by blast
  from resolve_Resolved [OF r] obtain raw_args where
    x: "extract_call tool_call = Inr (tool_name, raw_args)" and n: "tool_name \<noteq> []" and
    w: "with_defaults question tool_name (parse_args (json_loads e) raw_args) = Resolved tool_name args"
    by blast
  have k: "tool_name \<in> set known_tools \<longrightarrow> args \<noteq> PNone"
    using with_defaults_known [OF w] by auto
  have m: "mapping_source (json_loads e) raw_args \<longrightarrow> is_dict args"
    using with_defaults_is_dict [OF w] parse_args_mapping_source by blast
  from t x r n p k m show ?thesis by blast
qed

theorem dispatched_call_shape_witness:
  "\<exists>tool_call others tool_name raw_args args.
     tool_calls (llm_first (stub_env (sdk_tool_call ''search_emails'' ''{}'') NoReply) ''mail from Bob'')
       = tool_call # others \<and>
     extract_call tool_call = Inr (tool_name, raw_args) \<and>
     resolve (json_loads (stub_env (sdk_tool_call ''search_emails'' ''{}'') NoReply)) ''mail from Bob'' tool_call
       = Inr (Resolved tool_name args) \<and>
     tool_name \<noteq> [] \<and>
     ''http://localhost:8000/tools/search_emails'' = endpoint_of tool_name \<and>
     Some (PDict [(''query'', PStr (''from:'' @ [CHR 0x22] @ ''Bob'' @ [CHR 0x22])), (''max_results'', PInt 5)])
       = body_of args \<and>
     (tool_name \<in> set known_tools \<longrightarrow> args \<noteq> PNone) \<and>
     (mapping_source (json_loads (stub_env (sdk_tool_call ''search_emails'' ''{}'') NoReply)) raw_args
        \<longrightarrow> is_dict args)"
proof (rule dispatched_call_shape [OF ask_llm_sdk_search])
  show "HTTP_Post ''http://localhost:8000/tools/search_emails''
          (Some (PDict [(''query'', PStr (''from:'' @ [CHR 0x22] @ ''Bob'' @ [CHR 0x22])), (''max_results'', PInt 5)]))
        \<in> set [Print (CHR 0x0A # ''User: mail from Bob''), LLM_First ''mail from Bob'',
            Print (''LLM decided to call MCP tool: search_emails with args='' @
                   py_str (PDict [(''query'', PStr (''from:'' @ [CHR 0x22] @ ''Bob'' @ [CHR 0x22])),
                                  (''max_results'', PInt 5)])),
            HTTP_Post ''http://localhost:8000/tools/search_emails''
              (Some (PDict [(''query'', PStr (''from:'' @ [CHR 0x22] @ ''Bob'' @ [CHR 0x22])),
                            (''max_results'', PInt 5)])),
            PrintError TransportFailure]"
    by simp
qed

text \<open>
  C1 as stated fails: a tool call of the SDK's shape that names \<^verbatim>\<open>delete_email\<close> is
  dispatched to the endpoint of that name, which is none of the three known tools; and
  a call that names it with the arguments text \<^verbatim>\<open>null\<close> resolves with the arguments
  None.
\<close>

theorem unknown_tool_dispatched:
  "ask_llm (stub_env (sdk_tool_call ''delete_email'' ''{}'') NoReply) ''remove it''
     = Inr [Print (CHR 0x0A # ''User: remove it''), LLM_First ''remove it'',
            Print ''LLM decided to call MCP tool: delete_email with args={}'',
            HTTP_Post ''http://localhost:8000/tools/delete_email'' None,
            PrintError TransportFailure] \<and>
   ''delete_email'' \<notin> set known_tools \<and>
   resolve json_loads_model ''remove it''
       (plain_call [(''name'', PStr ''delete_email''), (''arguments'', PStr ''null'')])
     = Inr (Resolved ''delete_email'' PNone)"
  by code_simp

subsection \<open>Argument extraction\<close>

text \<open>
  C8, as the code has it. A mapping is accepted as it is; a string is read with
  \<^verbatim>\<open>json.loads\<close> and the value read is taken whatever its type; a string that
  \<^verbatim>\<open>json.loads\<close> rejects gives the empty mapping; an absent value gives the empty
  mapping; a non-empty list is accepted as it is. The result is a mapping whenever the
  raw arguments are absent, a mapping, or a string that is rejected or read as a
  mapping.
\<close>

theorem parse_args_shapes:
  "parse_args jl (PDict d) = PDict d \<and>
   (jl s = None \<longrightarrow> parse_args jl (PStr s) = PDict []) \<and>
   (jl s = Some v \<longrightarrow> parse_args jl (PStr s) = v) \<and>
   parse_args jl PNone = PDict [] \<and>
   (xs \<noteq> [] \<longrightarrow> parse_args jl (PList xs) = PList xs) \<and>
   (mapping_source jl raw_args \<longrightarrow> is_dict (parse_args jl raw_args))"
  using parse_args_mapping_source [of jl raw_args]
  by (cases d) (auto simp: parse_args_def py_or_def)

theorem parse_args_shapes_witness:
  \<open>parse_args json_loads_model (PStr ''{"max_results": 3}'') = PDict [(''max_results'', PInt 3)] \<and>
   parse_args json_loads_model (PStr ''not json'') = PDict []\<close>
proof
  have \<open>json_loads_model ''{"max_results": 3}'' = Some (PDict [(''max_results'', PInt 3)]) \<longrightarrow>
        parse_args json_loads_model (PStr ''{"max_results": 3}'') = PDict [(''max_results'', PInt 3)]\<close>
    using parse_args_shapes [of json_loads_model "[]" _ _ "[]" PNone] by blast
  then show \<open>parse_args json_loads_model (PStr ''{"max_results": 3}'') = PDict [(''max_results'', PInt 3)]\<close>
    using json_loads_model_examples(1) by (rule mp)
next
  have "json_loads_model ''not json'' = None \<longrightarrow>
        parse_args json_loads_model (PStr ''not json'') = PDict []"
    using parse_args_shapes [of json_loads_model "[]" _ PNone "[]" PNone] by blast
  then show "parse_args json_loads_model (PStr ''not json'') = PDict []"
    using json_loads_model_examples(2) by (rule mp)
qed

text \<open>
  C8 as stated fails: the string \<^verbatim>\<open>[1, 2]\<close> is valid JSON and gives a list, and a list
  given as raw arguments stays a list.
\<close>

theorem parse_args_not_mapping:
  "\<not> is_dict (parse_args json_loads_model (PStr ''[1, 2]'')) \<and>
   \<not> is_dict (parse_args json_loads_model (PList [PInt 1]))"
  by (simp add: parse_args_def json_loads_model_examples py_or_def)

subsection \<open>The sender pattern and the default query\<close>

lemma re_search_None_iff:
  "re_search m s = None \<longleftrightarrow> (\<forall>i \<le> length s. m (drop i s) = None)"
proof (induction s)
  case Nil
  then show ?case by simp
next
  case (Cons c cs)
  show ?case
  proof
    assume a: "re_search m (c # cs) = None"
    then have h: "m (c # cs) = None" and t: "re_search m cs = None"
      by (auto split: option.splits)
    show "\<forall>i \<le> length (c # cs). m (drop i (c # cs)) = None"
    proof (intro allI impI)
      fix i assume "i \<le> length (c # cs)"
      then show "m (drop i (c # cs)) = None"
        using h t Cons.IH by (cases i) auto
    qed
  next
    assume a: "\<forall>i \<le> length (c # cs). m (drop i (c # cs)) = None"
    then have "m (drop 0 (c # cs)) = None" by blast
    then have h: "m (c # cs) = None" by simp
    have "\<forall>i \<le> length cs. m (drop i cs) = None"
    proof (intro allI impI)
      fix i assume "i \<le> length cs"
      then have "Suc i \<le> length (c # cs)" by simp
      with a have "m (drop (Suc i) (c # cs)) = None" by blast
      then show "m (drop i cs) = None" by simp
    qed
    with Cons.IH h show "re_search m (c # cs) = None" by simp
  qed
qed

lemma re_search_Some:
  "re_search m s = Some g \<Longrightarrow>
     \<exists>pre t. s = pre @ t \<and> m t = Some g \<and> (\<forall>i < length pre. m (drop i s) = None)"
proof (induction s)
  case Nil
  then show ?case by simp
next
  case (Cons c cs)
  show ?case
  proof (cases "m (c # cs)")
    case (Some g')
    with Cons.prems have "m (c # cs) = Some g" by simp
    then have "c # cs = [] @ (c # cs) \<and> m (c # cs) = Some g \<and>
               (\<forall>i < length ([]::string). m (drop i (c # cs)) = None)" by simp
    then show ?thesis by blast
  next
    case None
    with Cons.prems have "re_search m cs = Some g" by simp
    from Cons.IH [OF this] obtain pre t where
      p: "cs = pre @ t" "m t = Some g" "\<forall>i < length pre. m (drop i cs) = None" by blast
    have "\<forall>i < length (c # pre). m (drop i (c # cs)) = None"
    proof (intro allI impI)
      fix i assume "i < length (c # pre)"
      then show "m (drop i (c # cs)) = None"
        using None p(3) by (cases i) auto
    qed
    with p(1,2) have "c # cs = (c # pre) @ t \<and> m t = Some g \<and>
        (\<forall>i < length (c # pre). m (drop i (c # cs)) = None)" by simp
    then show ?thesis by blast
  qed
qed

lemma re_search_skip:
  "\<forall>i < length pre. m (drop i (pre @ t)) = None \<Longrightarrow> re_search m (pre @ t) = re_search m t"
proof (induction pre)
  case Nil
  then show ?case by simp
next
  case (Cons c pre)
  from Cons.prems have "m (drop 0 ((c # pre) @ t)) = None" by force
  then have h: "m (c # pre @ t) = None" by simp
  have "\<forall>i < length pre. m (drop i (pre @ t)) = None"
  proof (intro allI impI)
    fix i assume "i < length pre"
    then have "Suc i < length (c # pre)" by simp
    with Cons.prems have "m (drop (Suc i) ((c # pre) @ t)) = None" by blast
    then show "m (drop i (pre @ t)) = None" by simp
  qed
  from Cons.IH [OF this] h show ?case by simp
qed

lemma re_search_hit: "m t = Some g \<Longrightarrow> re_search m t = Some g"
  by (cases t) simp_all

lemma lower_from_length: "is_from f \<Longrightarrow> length f = 4"
proof -
  assume "is_from f"
  then have "map to_lower f = ''from''" by (simp only: is_from_def)
  then have "length (map to_lower f) = length ''from''" by (rule arg_cong)
  then show ?thesis by simp
qed

lemma space_is_sender_char: "is_space c \<Longrightarrow> is_sender_char c"
  by (simp add: is_sender_char_def)

lemma takeWhile_all: "list_all P (takeWhile P xs)"
  by (induction xs) simp_all

lemma dropWhile_stops: "dropWhile P xs = [] \<or> \<not> P (hd (dropWhile P xs))"
  by (induction xs) simp_all

lemma takeWhile_Nil_stops: "takeWhile P xs = [] \<Longrightarrow> xs = [] \<or> \<not> P (hd xs)"
  by (cases xs) (auto split: if_splits)

lemma takeWhile_stop: "ys = [] \<or> \<not> P (hd ys) \<Longrightarrow> takeWhile P ys = []"
  by (cases ys) auto

lemma dropWhile_stop: "ys = [] \<or> \<not> P (hd ys) \<Longrightarrow> dropWhile P ys = ys"
  by (cases ys) auto

lemma takeWhile_run:
  "list_all P xs \<Longrightarrow> ys = [] \<or> \<not> P (hd ys) \<Longrightarrow> takeWhile P (xs @ ys) = xs"
  by (induction xs) (simp_all add: takeWhile_stop)

lemma dropWhile_run:
  "list_all P xs \<Longrightarrow> ys = [] \<or> \<not> P (hd ys) \<Longrightarrow> dropWhile P (xs @ ys) = ys"
  by (induction xs) (simp_all add: dropWhile_stop)

lemma match_from_at_Some:
  assumes "match_from_at s = Some g"
  shows "\<exists>f ws rest. s = f @ ws @ g @ rest \<and> is_from f \<and> ws \<noteq> [] \<and>
           list_all is_space ws \<and> g \<noteq> [] \<and> list_all is_sender_char g \<and>
           (rest = [] \<or> \<not> is_sender_char (hd rest))"
proof -
  define f where "f = take 4 s"
  define ws0 where "ws0 = takeWhile is_space (drop 4 s)"
  define r where "r = dropWhile is_space (drop 4 s)"
  define tk where "tk = takeWhile is_sender_char r"
  have u: "match_from_at s =
             (if is_from f then (if ws0 = [] then None else if tk \<noteq> [] then Some tk
                         else if 2 \<le> length ws0 then Some [last ws0] else None)
              else None)"
    unfolding f_def ws0_def r_def tk_def match_from_at_def Let_def by (rule refl)
  have f: "is_from f" using assms u by (cases "is_from f") simp_all
  have n: "ws0 \<noteq> []" using assms u f by (cases "ws0 = []") simp_all
  have sp: "list_all is_space ws0" unfolding ws0_def by (rule takeWhile_all)
  have s: "s = f @ ws0 @ r"
    unfolding f_def ws0_def r_def by simp
  show ?thesis
  proof (cases "tk = []")
    case False
    then have g: "g = tk" using assms u f n by simp
    have "s = f @ ws0 @ g @ dropWhile is_sender_char r"
      using s unfolding g tk_def by simp
    moreover have "list_all is_sender_char g" unfolding g tk_def by (rule takeWhile_all)
    moreover have "g \<noteq> []" using False g by simp
    moreover have "dropWhile is_sender_char r = [] \<or> \<not> is_sender_char (hd (dropWhile is_sender_char r))"
      by (rule dropWhile_stops)
    ultimately show ?thesis using f n sp by blast
  next
    case True
    have l: "2 \<le> length ws0" using assms u f n True by (cases "2 \<le> length ws0") simp_all
    have g: "g = [last ws0]" using assms u f n True l by simp
    have b: "ws0 = butlast ws0 @ g"
      using n by (simp add: g)
    have "butlast ws0 \<noteq> []"
    proof
      assume "butlast ws0 = []"
      then have "length (butlast ws0) = 0" by simp
      then show False using l by simp
    qed
    moreover have "list_all is_space (butlast ws0)"
      using sp by (auto simp: list_all_iff dest: in_set_butlastD)
    moreover have "is_space (last ws0)"
      using sp n by (simp add: list_all_iff)
    then have "list_all is_sender_char g"
      by (simp add: g space_is_sender_char)
    moreover have "s = f @ butlast ws0 @ g @ r"
    proof -
      have "s = f @ (butlast ws0 @ g) @ r" using s b by simp
      then show ?thesis by simp
    qed
    moreover have "r = [] \<or> \<not> is_sender_char (hd r)"
      using True unfolding tk_def by (rule takeWhile_Nil_stops)
    moreover have "g \<noteq> []" by (simp add: g)
    ultimately show ?thesis using f by blast
  qed
qed

lemma match_from_at_run:
  assumes "is_from f" and "ws \<noteq> []" and "list_all is_space ws"
      and "g \<noteq> []" and "\<not> is_space (hd g)" and "list_all is_sender_char g"
      and "rest = [] \<or> \<not> is_sender_char (hd rest)"
  shows "match_from_at (f @ ws @ g @ rest) = Some g"
proof -
  have l: "length f = 4" using assms(1) by (rule lower_from_length)
  have gr: "g @ rest = [] \<or> \<not> is_space (hd (g @ rest))"
    using assms(4,5) by simp
  have tw: "takeWhile is_space (ws @ g @ rest) = ws"
    using assms(3) gr by (rule takeWhile_run)
  have dw: "dropWhile is_space (ws @ g @ rest) = g @ rest"
    using assms(3) gr by (rule dropWhile_run)
  have tg: "takeWhile is_sender_char (g @ rest) = g"
    using assms(6,7) by (rule takeWhile_run)
  show ?thesis
    using assms(1,2,4) by (simp add: match_from_at_def l tw dw tg)
qed

lemma match_from_at_pair:
  assumes "is_from f" and "is_space w" and "is_sender_char c"
  shows "match_from_at (f @ [w, c] @ rest) \<noteq> None"
proof -
  have l: "length f = 4" using assms(1) by (rule lower_from_length)
  define ws0 where "ws0 = takeWhile is_space (w # c # rest)"
  define r where "r = dropWhile is_space (w # c # rest)"
  define tk where "tk = takeWhile is_sender_char r"
  have u: "match_from_at (f @ [w, c] @ rest) =
             (if ws0 = [] then None else if tk \<noteq> [] then Some tk
              else if 2 \<le> length ws0 then Some [last ws0] else None)"
    unfolding ws0_def r_def tk_def by (simp add: match_from_at_def l assms(1) Let_def)
  have n: "ws0 \<noteq> []" unfolding ws0_def using assms(2) by simp
  have "tk \<noteq> [] \<or> 2 \<le> length ws0"
  proof (cases "is_space c")
    case True
    then have "ws0 = w # c # takeWhile is_space rest"
      unfolding ws0_def using assms(2) by simp
    then show ?thesis by simp
  next
    case False
    then have "r = c # rest" unfolding r_def using assms(2) by simp
    then have "tk = c # takeWhile is_sender_char rest"
      unfolding tk_def using assms(3) by simp
    then show ?thesis by simp
  qed
  with u n show ?thesis by auto
qed

lemma match_from_at_iff:
  "match_from_at s \<noteq> None \<longleftrightarrow>
     (\<exists>f w c rest. s = f @ [w, c] @ rest \<and> is_from f \<and> is_space w \<and> is_sender_char c)"
proof
  assume "match_from_at s \<noteq> None"
  then obtain g where "match_from_at s = Some g" by blast
  from match_from_at_Some [OF this] obtain f ws rest where
    d: "s = f @ ws @ g @ rest" "is_from f" "ws \<noteq> []" "list_all is_space ws"
       "g \<noteq> []" "list_all is_sender_char g"
    by blast
  from d(3) obtain w ws' where ws: "ws = w # ws'" by (cases ws) auto
  from d(5) obtain c g' where g: "g = c # g'" by (cases g) auto
  show "\<exists>f w c rest. s = f @ [w, c] @ rest \<and> is_from f \<and> is_space w \<and> is_sender_char c"
  proof (cases ws')
    case Nil
    have "s = f @ [w, c] @ (g' @ rest)" using d(1) ws g Nil by simp
    moreover have "is_space w" using d(4) ws by simp
    moreover have "is_sender_char c" using d(6) g by simp
    ultimately have "s = f @ [w, c] @ (g' @ rest) \<and> is_from f \<and> is_space w \<and> is_sender_char c"
      using d(2) by simp
    then show ?thesis by (intro exI)
  next
    case (Cons c' ws'')
    have "s = f @ [w, c'] @ (ws'' @ g @ rest)" using d(1) ws Cons by simp
    moreover have "is_space w" "is_space c'" using d(4) ws Cons by simp_all
    ultimately have "s = f @ [w, c'] @ (ws'' @ g @ rest) \<and> is_from f \<and> is_space w \<and> is_sender_char c'"
      using d(2) by (simp add: space_is_sender_char)
    then show ?thesis by (intro exI)
  qed
next
  assume "\<exists>f w c rest. s = f @ [w, c] @ rest \<and> is_from f \<and> is_space w \<and> is_sender_char c"
  then obtain f w c rest where
    d: "s = f @ [w, c] @ rest" "is_from f" "is_space w" "is_sender_char c"
    by blast
  show "match_from_at s \<noteq> None"
    unfolding d(1) using d(2,3,4) by (rule match_from_at_pair)
qed

lemma strip_with_ends:
  "strip_with p s = [] \<or> (\<not> p (hd (strip_with p s)) \<and> \<not> p (last (strip_with p s)))"
proof (cases "strip_with p s = []")
  case True
  then show ?thesis by simp
next
  case False
  define x where "x = dropWhile p s"
  define y where "y = dropWhile p (rev x)"
  have sw: "strip_with p s = rev y" by (simp add: strip_with_def x_def y_def)
  with False have y: "y \<noteq> []" by simp
  have "\<not> p (hd y)" using dropWhile_stops [of p "rev x"] y unfolding y_def by blast
  then have l: "\<not> p (last (rev y))" using y by (simp add: last_rev)
  define z where "z = takeWhile p (rev x)"
  have "rev x = z @ y" by (simp add: z_def y_def)
  then have "rev (rev x) = rev (z @ y)" by (rule arg_cong)
  then have x: "x = rev y @ rev z" by simp
  have "x \<noteq> []" using x y by simp
  then have "\<not> p (hd x)" using dropWhile_stops [of p s] unfolding x_def by blast
  moreover have "hd x = hd (rev y)" using x y by simp
  ultimately show ?thesis using l sw by simp
qed

lemma search_query_found:
  "re_search match_from_at q = Some g \<Longrightarrow>
     search_query q = ''from:'' @ [CHR 0x22] @ clean_sender g @ [CHR 0x22]"
  by (simp add: search_query_def)

lemma search_query_not_found:
  "re_search match_from_at q = None \<Longrightarrow> search_query q = q"
  by (simp add: search_query_def)

lemma clean_sender_ends:
  "clean_sender g = [] \<or>
   (hd (clean_sender g) \<notin> set [CHR 0x22, CHR 0x27, CHR ''?'', CHR ''.''] \<and>
    last (clean_sender g) \<notin> set [CHR 0x22, CHR 0x27, CHR ''?'', CHR ''.''])"
  unfolding clean_sender_def strip_chars_def by (rule strip_with_ends)

lemma ord_inj: "ord c = ord d \<Longrightarrow> c = d"
  by (simp add: ord_def)

lemma ord_char_of: "n < 256 \<Longrightarrow> ord (char_of n) = n"
  by (simp add: ord_def)

lemma to_lower_eq_lower:
  assumes "is_lower l"
  shows "to_lower c = l \<longleftrightarrow> c = l \<or> ord c + 32 = ord l"
proof (cases "is_upper c \<or> (192 \<le> ord c \<and> ord c \<le> 214) \<or> (216 \<le> ord c \<and> ord c \<le> 222)")
  case True
  then have t: "to_lower c = char_of (ord c + 32)" by (simp add: to_lower_def)
  have b: "ord c + 32 < 256" using True by (auto simp: is_upper_def)
  have o: "ord (to_lower c) = ord c + 32" unfolding t using b by (rule ord_char_of)
  have n: "c \<noteq> l" using True assms by (auto simp: is_upper_def is_lower_def)
  show ?thesis
  proof
    assume "to_lower c = l"
    with o show "c = l \<or> ord c + 32 = ord l" by simp
  next
    assume "c = l \<or> ord c + 32 = ord l"
    with n have "ord (to_lower c) = ord l" using o by simp
    then show "to_lower c = l" by (rule ord_inj)
  qed
next
  case False
  then have t: "to_lower c = c" by (auto simp: to_lower_def)
  have "ord c + 32 \<noteq> ord l"
  proof
    assume "ord c + 32 = ord l"
    with assms have "is_upper c" by (simp add: is_upper_def is_lower_def)
    with False show False by simp
  qed
  with t show ?thesis by simp
qed

lemma capital_of:
  assumes "ord c + 32 = ord l" and "ord u + 32 = ord l"
  shows "c = u"
proof -
  from assms have "ord c = ord u" by simp
  then show ?thesis by (rule ord_inj)
qed

lemma lower_letters:
  "to_lower c = CHR ''f'' \<longleftrightarrow> c = CHR ''f'' \<or> c = CHR ''F''"
  "to_lower c = CHR ''r'' \<longleftrightarrow> c = CHR ''r'' \<or> c = CHR ''R''"
  "to_lower c = CHR ''o'' \<longleftrightarrow> c = CHR ''o'' \<or> c = CHR ''O''"
  "to_lower c = CHR ''m'' \<longleftrightarrow> c = CHR ''m'' \<or> c = CHR ''M''"
proof -
  have l: "is_lower (CHR ''f'')" "is_lower (CHR ''r'')" "is_lower (CHR ''o'')" "is_lower (CHR ''m'')"
    by (simp_all add: is_lower_def ord_def)
  have u: "ord (CHR ''F'') + 32 = ord (CHR ''f'')" "ord (CHR ''R'') + 32 = ord (CHR ''r'')"
          "ord (CHR ''O'') + 32 = ord (CHR ''o'')" "ord (CHR ''M'') + 32 = ord (CHR ''m'')"
    by (simp_all add: ord_def)
  show "to_lower c = CHR ''f'' \<longleftrightarrow> c = CHR ''f'' \<or> c = CHR ''F''"
    unfolding to_lower_eq_lower [OF l(1)] using u(1) capital_of [of c "CHR ''f''" "CHR ''F''"] by blast
  show "to_lower c = CHR ''r'' \<longleftrightarrow> c = CHR ''r'' \<or> c = CHR ''R''"
    unfolding to_lower_eq_lower [OF l(2)] using u(2) capital_of [of c "CHR ''r''" "CHR ''R''"] by blast
  show "to_lower c = CHR ''o'' \<longleftrightarrow> c = CHR ''o'' \<or> c = CHR ''O''"
    unfolding to_lower_eq_lower [OF l(3)] using u(3) capital_of [of c "CHR ''o''" "CHR ''O''"] by blast
  show "to_lower c = CHR ''m'' \<longleftrightarrow> c = CHR ''m'' \<or> c = CHR ''M''"
    unfolding to_lower_eq_lower [OF l(4)] using u(4) capital_of [of c "CHR ''m''" "CHR ''M''"] by blast
qed

lemma length_four: "length f = 4 \<Longrightarrow> \<exists>a b c d. f = [a, b, c, d]"
  by (auto simp: numeral_eq_Suc length_Suc_conv)

lemma is_from_four:
  "is_from [a, b, c, d] \<longleftrightarrow>
     (a = CHR ''f'' \<or> a = CHR ''F'') \<and> (b = CHR ''r'' \<or> b = CHR ''R'') \<and>
     (c = CHR ''o'' \<or> c = CHR ''O'') \<and> (d = CHR ''m'' \<or> d = CHR ''M'')"
proof -
  have "is_from [a, b, c, d] \<longleftrightarrow>
          to_lower a = CHR ''f'' \<and> to_lower b = CHR ''r'' \<and> to_lower c = CHR ''o'' \<and> to_lower d = CHR ''m''"
    by (simp add: is_from_def)
  then show ?thesis by (simp only: lower_letters)
qed

lemma is_from_iff: "is_from f \<longleftrightarrow> spells_from f"
proof (cases "length f = 4")
  case True
  from length_four [OF this] obtain a b c d where f: "f = [a, b, c, d]" by blast
  show ?thesis unfolding f by (simp add: is_from_four spells_from_def)
next
  case False
  then have "\<not> is_from f" using lower_from_length by blast
  moreover have "\<not> spells_from f"
  proof
    assume "spells_from f"
    then have "\<exists>a b c d. f = [a, b, c, d]"
      by (auto simp: spells_from_def split: list.splits)
    with False show False by auto
  qed
  ultimately show ?thesis by simp
qed

lemma match_from_at_Nil: "match_from_at [] = None"
  by (simp add: match_from_at_def is_from_def)

lemma pattern_starts_iff: "pattern_starts s \<longleftrightarrow> match_from_at s \<noteq> None"
proof
  assume p: "pattern_starts s"
  then have f: "is_from (take 4 s)" by (simp add: pattern_starts_def is_from_iff)
  from p obtain w c rest where
    d: "drop 4 s = w # c # rest" and w: "is_space w" and c: "is_sender_char c"
    by (auto simp: pattern_starts_def split: list.splits)
  have "s = take 4 s @ drop 4 s" by simp
  then have s: "s = take 4 s @ [w, c] @ rest" by (simp only: d append_Cons append_Nil)
  have "match_from_at (take 4 s @ [w, c] @ rest) \<noteq> None"
    using f w c by (rule match_from_at_pair)
  then show "match_from_at s \<noteq> None" using s by simp
next
  assume "match_from_at s \<noteq> None"
  then have "\<exists>f w c rest. s = f @ [w, c] @ rest \<and> is_from f \<and> is_space w \<and> is_sender_char c"
    by (simp only: match_from_at_iff)
  then obtain f w c rest where
    d: "s = f @ [w, c] @ rest" "is_from f" "is_space w" "is_sender_char c" by blast
  have l: "length f = 4" using d(2) by (rule lower_from_length)
  have "take 4 s = f" "drop 4 s = w # c # rest" by (simp_all add: d(1) l)
  then show "pattern_starts s"
    using d(2,3,4) by (simp add: pattern_starts_def is_from_iff)
qed

lemma from_pattern_in_iff: "from_pattern_in q \<longleftrightarrow> re_search match_from_at q \<noteq> None"
proof
  assume "from_pattern_in q"
  then obtain i where i: "i < length q" "pattern_starts (drop i q)"
    by (auto simp: from_pattern_in_def list_ex_iff)
  then have m: "match_from_at (drop i q) \<noteq> None" by (simp add: pattern_starts_iff)
  show "re_search match_from_at q \<noteq> None"
  proof
    assume "re_search match_from_at q = None"
    then have "\<forall>i \<le> length q. match_from_at (drop i q) = None"
      by (simp only: re_search_None_iff)
    with i(1) have "match_from_at (drop i q) = None" by simp
    with m show False by simp
  qed
next
  assume "re_search match_from_at q \<noteq> None"
  then have "\<not> (\<forall>i \<le> length q. match_from_at (drop i q) = None)"
    unfolding re_search_None_iff .
  then obtain i where i: "i \<le> length q" "match_from_at (drop i q) \<noteq> None" by blast
  have "i \<noteq> length q" using i(2) by (auto simp: match_from_at_Nil)
  with i(1) have "i < length q" by simp
  moreover have "pattern_starts (drop i q)" using i(2) by (simp add: pattern_starts_iff)
  ultimately show "from_pattern_in q"
    by (auto simp: from_pattern_in_def list_ex_iff)
qed

lemma first_at_iff: "first_at n q \<longleftrightarrow> (\<forall>i < n. match_from_at (drop i q) = None)"
  by (auto simp: first_at_def list_all_iff pattern_starts_iff)

lemma re_search_first_at:
  assumes "first_at (length pre) (pre @ t)"
  shows "re_search match_from_at (pre @ t) = re_search match_from_at t"
proof -
  from assms have "\<forall>i < length pre. match_from_at (drop i (pre @ t)) = None"
    unfolding first_at_iff .
  then show ?thesis by (rule re_search_skip)
qed

lemma re_search_from_run:
  assumes "first_at (length pre) (pre @ f @ ws @ body @ rest)" and "spells_from f" and "ws \<noteq> []"
      and "list_all is_space ws" and "body \<noteq> []" and "\<not> is_space (hd body)"
      and "list_all is_sender_char body" and "rest = [] \<or> \<not> is_sender_char (hd rest)"
  shows "re_search match_from_at (pre @ f @ ws @ body @ rest) = Some body"
proof -
  have f: "is_from f" using assms(2) unfolding is_from_iff .
  have "match_from_at (f @ ws @ body @ rest) = Some body"
    using f assms(3-8) by (rule match_from_at_run)
  then have "re_search match_from_at (f @ ws @ body @ rest) = Some body"
    by (rule re_search_hit)
  then show ?thesis
    by (simp only: re_search_first_at [OF assms(1)])
qed

lemma re_search_from_Some:
  assumes "re_search match_from_at q = Some g"
  shows "\<exists>pre f ws rest. q = pre @ f @ ws @ g @ rest \<and> first_at (length pre) q \<and>
           spells_from f \<and> ws \<noteq> [] \<and> list_all is_space ws \<and> g \<noteq> [] \<and>
           list_all is_sender_char g \<and> (rest = [] \<or> \<not> is_sender_char (hd rest))"
proof -
  from re_search_Some [OF assms] obtain pre t where
    p: "q = pre @ t" "match_from_at t = Some g"
       "\<forall>i < length pre. match_from_at (drop i q) = None" by blast
  from match_from_at_Some [OF p(2)] obtain f ws rest where
    d: "t = f @ ws @ g @ rest" "is_from f" "ws \<noteq> []" "list_all is_space ws" "g \<noteq> []"
       "list_all is_sender_char g" "rest = [] \<or> \<not> is_sender_char (hd rest)"
    by blast
  have q: "q = pre @ f @ ws @ g @ rest" using p(1) d(1) by simp
  have fa: "first_at (length pre) q" using p(3) unfolding first_at_iff .
  have sf: "spells_from f" using d(2) unfolding is_from_iff .
  show ?thesis using q fa sf d(3-7) by (intro exI conjI)
qed

lemma sender_pattern_examples:
  "\<not> from_pattern_in ''what is new''"
  "from_pattern_in ''mail FroM Bob''"
  "re_search match_from_at ''mail FroM Bob'' = Some ''Bob''"
  "clean_sender ''Bob'' = ''Bob''"
  by code_simp+

text \<open>
  C4. For the tool \<^verbatim>\<open>search_emails\<close> with an empty argument set and the question
  \<^verbatim>\<open>emails from Alice\<close>, the default arguments are the query \<^verbatim>\<open>from:"Alice"\<close> and
  \<^verbatim>\<open>max_results\<close> 5. In general the defaults are a query and \<^verbatim>\<open>max_results\<close> 5; when the
  question has the pattern (the letters of \<^verbatim>\<open>from\<close>, each in either case, a white space
  character and a character of the sender class) the query is \<^verbatim>\<open>from:"<sender>"\<close> for
  the captured and cleaned sender, and otherwise it is the question itself.
\<close>

theorem search_defaults:
  "with_defaults ''emails from Alice'' ''search_emails'' (PDict [])
     = Resolved ''search_emails''
         (PDict [(''query'', PStr (''from:'' @ [CHR 0x22] @ ''Alice'' @ [CHR 0x22])),
                 (''max_results'', PInt 5)]) \<and>
   (\<not> truthy args \<longrightarrow>
      with_defaults question ''search_emails'' args
        = Resolved ''search_emails''
            (PDict [(''query'', PStr (search_query question)), (''max_results'', PInt 5)])) \<and>
   (from_pattern_in question \<longrightarrow>
      (\<exists>g. re_search match_from_at question = Some g \<and>
           search_query question = ''from:'' @ [CHR 0x22] @ clean_sender g @ [CHR 0x22])) \<and>
   (\<not> from_pattern_in question \<longrightarrow> search_query question = question)"
proof (intro conjI impI)
  show "with_defaults ''emails from Alice'' ''search_emails'' (PDict [])
     = Resolved ''search_emails''
         (PDict [(''query'', PStr (''from:'' @ [CHR 0x22] @ ''Alice'' @ [CHR 0x22])),
                 (''max_results'', PInt 5)])"
    by code_simp
next
  assume "\<not> truthy args"
  then show "with_defaults question ''search_emails'' args
        = Resolved ''search_emails''
            (PDict [(''query'', PStr (search_query question)), (''max_results'', PInt 5)])"
    by (simp add: with_defaults_def)
next
  assume "from_pattern_in question"
  then have "re_search match_from_at question \<noteq> None"
    unfolding from_pattern_in_iff .
  then obtain g where g: "re_search match_from_at question = Some g" by blast
  then have sq: "search_query question = ''from:'' @ [CHR 0x22] @ clean_sender g @ [CHR 0x22]"
    by (rule search_query_found)
  show "\<exists>g. re_search match_from_at question = Some g \<and>
           search_query question = ''from:'' @ [CHR 0x22] @ clean_sender g @ [CHR 0x22]"
    by (intro exI [of _ g] conjI g sq)
next
  assume "\<not> from_pattern_in question"
  then have "re_search match_from_at question = None"
    unfolding from_pattern_in_iff by simp
  then show "search_query question = question"
    by (rule search_query_not_found)
qed

theorem search_defaults_witness:
  "search_query ''what is new'' = ''what is new'' \<and>
   with_defaults ''what is new'' ''search_emails'' PNone
     = Resolved ''search_emails''
         (PDict [(''query'', PStr (search_query ''what is new'')), (''max_results'', PInt 5)]) \<and>
   search_query ''mail FroM Bob'' = ''from:'' @ [CHR 0x22] @ ''Bob'' @ [CHR 0x22]"
proof (intro conjI)
  have "\<not> from_pattern_in ''what is new'' \<longrightarrow> search_query ''what is new'' = ''what is new''"
    using search_defaults [of PNone "''what is new''"] by (elim conjE)
  then show "search_query ''what is new'' = ''what is new''"
    using sender_pattern_examples(1) by (rule mp)
next
  have "\<not> truthy PNone \<longrightarrow>
      with_defaults ''what is new'' ''search_emails'' PNone
        = Resolved ''search_emails''
            (PDict [(''query'', PStr (search_query ''what is new'')), (''max_results'', PInt 5)])"
    using search_defaults [of PNone "''what is new''"] by (elim conjE)
  moreover have "\<not> truthy PNone" by simp
  ultimately show "with_defaults ''what is new'' ''search_emails'' PNone
     = Resolved ''search_emails''
         (PDict [(''query'', PStr (search_query ''what is new'')), (''max_results'', PInt 5)])"
    by (rule mp)
next
  have "from_pattern_in ''mail FroM Bob'' \<longrightarrow>
      (\<exists>g. re_search match_from_at ''mail FroM Bob'' = Some g \<and>
           search_query ''mail FroM Bob'' = ''from:'' @ [CHR 0x22] @ clean_sender g @ [CHR 0x22])"
    using search_defaults [of PNone "''mail FroM Bob''"] by (elim conjE)
  then have "\<exists>g. re_search match_from_at ''mail FroM Bob'' = Some g \<and>
        search_query ''mail FroM Bob'' = ''from:'' @ [CHR 0x22] @ clean_sender g @ [CHR 0x22]"
    using sender_pattern_examples(2) by (rule mp)
  then obtain g where
    g: "re_search match_from_at ''mail FroM Bob'' = Some g" and
    q: "search_query ''mail FroM Bob'' = ''from:'' @ [CHR 0x22] @ clean_sender g @ [CHR 0x22]"
    by (elim exE conjE)
  from g have "g = ''Bob''" unfolding sender_pattern_examples(3) by simp
  with q show "search_query ''mail FroM Bob'' = ''from:'' @ [CHR 0x22] @ ''Bob'' @ [CHR 0x22]"
    by (simp only: sender_pattern_examples(4))
qed

text \<open>
  C9. The sender pattern captures greedily over word characters, white space, dots,
  hyphens and at signs. For the question \<^verbatim>\<open>emails from Alice Smith about budget\<close> the
  query is \<^verbatim>\<open>from:"Alice Smith about budget"\<close>; an accented letter is a word character
  and a no-break space is white space. For every question in which the pattern occurs,
  the captured text follows the first place where the pattern starts (\<^verbatim>\<open>from\<close> in any
  case, then white space), consists of class characters only and ends at the end of
  the question or before a character outside the class. Conversely, where the first
  \<^verbatim>\<open>from\<close> at which the pattern starts is followed by white space and a run of class
  characters that ends at the end of the question or before a character outside the
  class, the whole run is captured. The sender in the query is the captured text with
  white space, and then quotes, question marks and dots, stripped from both ends.
\<close>

theorem sender_capture_greedy:
  "search_query ''emails from Alice Smith about budget''
     = ''from:'' @ [CHR 0x22] @ ''Alice Smith about budget'' @ [CHR 0x22] \<and>
   search_query (''mail from Jos'' @ [CHR 0xE9] @ '' please!'')
     = ''from:'' @ [CHR 0x22] @ ''Jos'' @ [CHR 0xE9] @ '' please'' @ [CHR 0x22] \<and>
   search_query (''mail from'' @ [CHR 0xA0] @ ''Bob.  '')
     = ''from:'' @ [CHR 0x22] @ ''Bob'' @ [CHR 0x22] \<and>
   (from_pattern_in q \<longrightarrow>
      (\<exists>g pre f ws rest.
         re_search match_from_at q = Some g \<and>
         q = pre @ f @ ws @ g @ rest \<and> first_at (length pre) q \<and> spells_from f \<and>
         ws \<noteq> [] \<and> list_all is_space ws \<and> g \<noteq> [] \<and> list_all is_sender_char g \<and>
         (rest = [] \<or> \<not> is_sender_char (hd rest)) \<and>
         search_query q = ''from:'' @ [CHR 0x22] @ clean_sender g @ [CHR 0x22])) \<and>
   (first_at (length pre) (pre @ f @ ws @ body @ rest) \<and> spells_from f \<and> ws \<noteq> [] \<and>
    list_all is_space ws \<and> body \<noteq> [] \<and> \<not> is_space (hd body) \<and>
    list_all is_sender_char body \<and> (rest = [] \<or> \<not> is_sender_char (hd rest)) \<longrightarrow>
      re_search match_from_at (pre @ f @ ws @ body @ rest) = Some body \<and>
      search_query (pre @ f @ ws @ body @ rest)
        = ''from:'' @ [CHR 0x22] @ clean_sender body @ [CHR 0x22]) \<and>
   (clean_sender g = [] \<or>
    (hd (clean_sender g) \<notin> set [CHR 0x22, CHR 0x27, CHR ''?'', CHR ''.''] \<and>
     last (clean_sender g) \<notin> set [CHR 0x22, CHR 0x27, CHR ''?'', CHR ''.'']))"
proof (intro conjI impI)
  show "search_query ''emails from Alice Smith about budget''
     = ''from:'' @ [CHR 0x22] @ ''Alice Smith about budget'' @ [CHR 0x22]"
    by code_simp
next
  show "search_query (''mail from Jos'' @ [CHR 0xE9] @ '' please!'')
     = ''from:'' @ [CHR 0x22] @ ''Jos'' @ [CHR 0xE9] @ '' please'' @ [CHR 0x22]"
    by code_simp
next
  show "search_query (''mail from'' @ [CHR 0xA0] @ ''Bob.  '')
     = ''from:'' @ [CHR 0x22] @ ''Bob'' @ [CHR 0x22]"
    by code_simp
next
  assume "from_pattern_in q"
  then have "re_search match_from_at q \<noteq> None"
    unfolding from_pattern_in_iff .
  then obtain g where g: "re_search match_from_at q = Some g" by blast
  from re_search_from_Some [OF g] obtain pre f ws rest where
    d: "q = pre @ f @ ws @ g @ rest" "first_at (length pre) q" "spells_from f" "ws \<noteq> []"
       "list_all is_space ws" "g \<noteq> []" "list_all is_sender_char g"
       "rest = [] \<or> \<not> is_sender_char (hd rest)"
    by (elim exE conjE)
  have sq: "search_query q = ''from:'' @ [CHR 0x22] @ clean_sender g @ [CHR 0x22]"
    using g by (rule search_query_found)
  show "\<exists>g pre f ws rest.
         re_search match_from_at q = Some g \<and>
         q = pre @ f @ ws @ g @ rest \<and> first_at (length pre) q \<and> spells_from f \<and>
         ws \<noteq> [] \<and> list_all is_space ws \<and> g \<noteq> [] \<and> list_all is_sender_char g \<and>
         (rest = [] \<or> \<not> is_sender_char (hd rest)) \<and>
         search_query q = ''from:'' @ [CHR 0x22] @ clean_sender g @ [CHR 0x22]"
    using g d sq by (intro exI conjI)
next
  assume a: "first_at (length pre) (pre @ f @ ws @ body @ rest) \<and> spells_from f \<and> ws \<noteq> [] \<and>
    list_all is_space ws \<and> body \<noteq> [] \<and> \<not> is_space (hd body) \<and>
    list_all is_sender_char body \<and> (rest = [] \<or> \<not> is_sender_char (hd rest))"
  then show r: "re_search match_from_at (pre @ f @ ws @ body @ rest) = Some body"
    by (intro re_search_from_run) (elim conjE, assumption)+
  show "search_query (pre @ f @ ws @ body @ rest)
        = ''from:'' @ [CHR 0x22] @ clean_sender body @ [CHR 0x22]"
    using r by (rule search_query_found)
next
  show "clean_sender g = [] \<or>
    (hd (clean_sender g) \<notin> set [CHR 0x22, CHR 0x27, CHR ''?'', CHR ''.''] \<and>
     last (clean_sender g) \<notin> set [CHR 0x22, CHR 0x27, CHR ''?'', CHR ''.''])"
    by (rule clean_sender_ends)
qed

theorem sender_capture_greedy_witness:
  "re_search match_from_at ''offers? mail FROM Alice Smith about budget. !''
     = Some ''Alice Smith about budget. '' \<and>
   search_query ''offers? mail FROM Alice Smith about budget. !''
     = ''from:'' @ [CHR 0x22] @ ''Alice Smith about budget'' @ [CHR 0x22]"
proof -
  have h: "first_at (length ''offers? mail '')
             (''offers? mail '' @ ''FROM'' @ '' '' @ ''Alice Smith about budget. '' @ ''!'') \<and>
    spells_from ''FROM'' \<and> '' '' \<noteq> [] \<and>
    list_all is_space '' '' \<and> ''Alice Smith about budget. '' \<noteq> [] \<and>
    \<not> is_space (hd ''Alice Smith about budget. '') \<and>
    list_all is_sender_char ''Alice Smith about budget. '' \<and>
    (''!'' = [] \<or> \<not> is_sender_char (hd ''!''))"
    by code_simp
  have c: "clean_sender ''Alice Smith about budget. '' = ''Alice Smith about budget''"
    by code_simp
  have "re_search match_from_at
          (''offers? mail '' @ ''FROM'' @ '' '' @ ''Alice Smith about budget. '' @ ''!'')
          = Some ''Alice Smith about budget. '' \<and>
        search_query (''offers? mail '' @ ''FROM'' @ '' '' @ ''Alice Smith about budget. '' @ ''!'')
          = ''from:'' @ [CHR 0x22] @ clean_sender ''Alice Smith about budget. '' @ [CHR 0x22]"
    using sender_capture_greedy [THEN conjunct2, THEN conjunct2, THEN conjunct2, THEN conjunct2,
            THEN conjunct1] h
    by (rule mp)
  then show ?thesis unfolding c by simp
qed

subsection \<open>Where the tool name is found\<close>

lemma holds_name_truthy: "holds_name v n \<Longrightarrow> n \<noteq> [] \<Longrightarrow> truthy v"
  by (cases v) (auto simp: dict_get_def split: option.splits)

lemma nested_name_holds: "holds_name v n \<Longrightarrow> n \<noteq> [] \<Longrightarrow> nested_name v = PStr n"
  by (cases v) (auto simp: nested_name_def py_or_def)

lemma probe_attrs_single:
  "a \<in> set attrs \<Longrightarrow> truthy (getattr tool_call a) \<Longrightarrow>
   list_all (\<lambda>b. b = a \<or> \<not> truthy (getattr tool_call b)) attrs \<Longrightarrow>
   probe_attrs tool_call attrs = getattr tool_call a"
  by (induction attrs) (auto simp: Let_def)

lemma probe_attrs_none:
  "list_all (\<lambda>b. \<not> truthy (getattr tool_call b)) attrs \<Longrightarrow> probe_attrs tool_call attrs = PNone"
  by (induction attrs) (auto simp: Let_def)

lemma not_ident_eq: "\<not> is_ident_char (CHR ''='')"
  by code_simp

lemma not_ident_paren: "\<not> is_ident_char (CHR '')'')"
  by code_simp

lemma match_name_at_eq: "match_name_at s = Some g \<Longrightarrow> CHR ''='' \<in> set s"
proof -
  assume "match_name_at s = Some g"
  then have "starts_with ''name='' s"
    by (cases "starts_with ''name='' s") (simp_all add: match_name_at_def)
  then have t: "take (length ''name='') s = ''name=''" unfolding starts_with_def .
  have "CHR ''='' \<in> set ''name=''" by simp
  then have "CHR ''='' \<in> set (take (length ''name='') s)" by (simp only: t)
  then show ?thesis by (rule in_set_takeD)
qed

lemma match_last_ident_at_paren: "match_last_ident_at s = Some g \<Longrightarrow> CHR '')'' \<in> set s"
proof -
  assume a: "match_last_ident_at s = Some g"
  define r where "r = dropWhile is_ident_char s"
  from a have "\<exists>cs. r = CHR '')'' # cs"
    unfolding r_def by (auto simp: match_last_ident_at_def Let_def split: list.splits if_splits)
  then have "CHR '')'' \<in> set r" by auto
  then show ?thesis unfolding r_def by (rule set_dropWhileD)
qed

lemma re_search_ident_None:
  assumes "list_all is_ident_char n" and "\<not> is_ident_char x"
      and "\<And>s g. m s = Some g \<Longrightarrow> x \<in> set s"
  shows "re_search m n = None"
proof (cases "re_search m n")
  case None
  then show ?thesis .
next
  case (Some g)
  from re_search_Some [OF this] obtain pre t where p: "n = pre @ t" "m t = Some g" by blast
  from assms(3) [OF p(2)] have "x \<in> set n" by (simp add: p(1))
  with assms(1) have "is_ident_char x" by (simp add: list_all_iff)
  with assms(2) show ?thesis by simp
qed

lemma normalize_name_ident:
  assumes "list_all is_ident_char n"
  shows "normalize_name (PStr n) = n"
proof -
  have a: "re_search match_name_at n = None"
    using assms not_ident_eq match_name_at_eq by (rule re_search_ident_None)
  have b: "re_search match_last_ident_at n = None"
    using assms not_ident_paren match_last_ident_at_paren by (rule re_search_ident_None)
  show ?thesis by (simp add: normalize_name_def a b)
qed

lemma prefer_dict_no_entry:
  assumes "no_entry_name tool_call"
  shows "fst (prefer_dict (to_tc_dict tool_call) (v, raw)) = v"
proof (cases "to_tc_dict tool_call")
  case (PDict d)
  then have "\<not> truthy (dict_get d ''name'')" "\<not> truthy (dict_get d ''tool'')"
            "\<not> (is_str (dict_get d ''function'') \<and> truthy (dict_get d ''function''))"
    using assms by (simp_all add: no_entry_name_def entry_def)
  then show ?thesis
    by (auto simp: prefer_dict_def PDict py_or_def Let_def)
qed (simp_all add: prefer_dict_def)

lemma entry_truthy_dict:
  "truthy (entry tool_call k) \<Longrightarrow> \<exists>d. to_tc_dict tool_call = PDict d \<and> entry tool_call k = dict_get d k"
  by (cases "to_tc_dict tool_call") (simp_all add: entry_def)

lemma prefer_dict_entry:
  assumes "list_all (\<lambda>j. j = k \<or> \<not> truthy (entry tool_call j)) [''name'', ''tool'', ''function'']"
      and "truthy (entry tool_call k)"
      and "k = ''name'' \<or> k = ''tool'' \<or> k = ''function'' \<and> is_str (entry tool_call k)"
  shows "fst (prefer_dict (to_tc_dict tool_call) (v, raw)) = entry tool_call k"
proof -
  from entry_truthy_dict [OF assms(2)] obtain d where
    d: "to_tc_dict tool_call = PDict d" by blast
  have e: "\<And>j. entry tool_call j = dict_get d j" by (simp add: entry_def d)
  define en where "en = dict_get d ''name''"
  define et where "et = dict_get d ''tool''"
  define ef where "ef = dict_get d ''function''"
  have u: "fst (prefer_dict (to_tc_dict tool_call) (v, raw)) =
             (let dict_name = py_or (py_or en et) (if is_str ef then ef else PNone)
              in if truthy dict_name then dict_name else v)"
    by (simp add: prefer_dict_def d Let_def en_def et_def ef_def)
  have l: "(k = ''name'' \<or> \<not> truthy en)" "(k = ''tool'' \<or> \<not> truthy et)"
          "(k = ''function'' \<or> \<not> truthy ef)"
    using assms(1) by (auto simp: e en_def et_def ef_def)
  consider (n) "k = ''name''" | (t) "k = ''tool''" | (f) "k = ''function''" "is_str ef"
    using assms(3) by (auto simp: e ef_def)
  then show ?thesis
  proof cases
    case n
    then have "truthy en" "entry tool_call k = en" using assms(2) by (simp_all add: e en_def)
    then show ?thesis by (simp add: u py_or_def)
  next
    case t
    then have "truthy et" "entry tool_call k = et" "\<not> truthy en"
      using assms(2) l(1) by (simp_all add: e et_def)
    then show ?thesis by (simp add: u py_or_def)
  next
    case f
    then have "truthy ef" "entry tool_call k = ef" "\<not> truthy en" "\<not> truthy et"
      using assms(2) l(1,2) by (simp_all add: e ef_def)
    then show ?thesis using f(2) by (simp add: u py_or_def)
  qed
qed

lemma ident_search_emails: "list_all is_ident_char ''search_emails''"
  by code_simp

lemma exposes_examples:
  "exposes (sdk_tool_call ''search_emails'' ''{}'') (Attribute ''function'') ''search_emails''"
  "exposes (plain_call [(''tool_name'', PStr ''search_emails'')]) (Attribute ''tool_name'') ''search_emails''"
  "exposes (PDict [(''tool'', PStr ''search_emails'')]) (Entry ''tool'') ''search_emails''"
  "exposes (PDict [(''function'', PStr ''search_emails'')]) (Entry ''function'') ''search_emails''"
  by code_simp+


lemma extract_name_exposed:
  assumes "n \<noteq> []" and "list_all is_ident_char n" and "exposes tool_call loc n"
  shows "extract_name tool_call = n"
proof -
  have "nested_name (fst (probe tool_call)) = PStr n"
  proof (cases loc)
    case (Attribute a)
    with assms(3) have
      a: "a \<in> set name_attrs" and h: "holds_name (getattr tool_call a) n" and
      o: "list_all (\<lambda>b. b = a \<or> \<not> truthy (getattr tool_call b)) name_attrs" and
      e: "no_entry_name tool_call"
      by simp_all
    have "truthy (getattr tool_call a)" using h assms(1) by (rule holds_name_truthy)
    with a o have "probe_attrs tool_call name_attrs = getattr tool_call a"
      by (simp add: probe_attrs_single)
    then have "fst (probe tool_call) = getattr tool_call a"
      by (simp add: probe_def prefer_dict_no_entry [OF e])
    then show ?thesis using h assms(1) by (simp add: nested_name_holds)
  next
    case (Entry k)
    with assms(3) have
      o: "list_all (\<lambda>j. j = k \<or> \<not> truthy (entry tool_call j)) [''name'', ''tool'', ''function'']" and
      c: "(k = ''name'' \<or> k = ''tool'') \<and> holds_name (entry tool_call k) n \<or>
          k = ''function'' \<and> entry tool_call k = PStr n"
      by simp_all
    from c have h: "holds_name (entry tool_call k) n" by auto
    then have t: "truthy (entry tool_call k)" using assms(1) by (rule holds_name_truthy)
    from c have "k = ''name'' \<or> k = ''tool'' \<or> k = ''function'' \<and> is_str (entry tool_call k)"
      by auto
    with o t have "fst (probe tool_call) = entry tool_call k"
      by (simp add: probe_def prefer_dict_entry)
    then show ?thesis using h assms(1) by (simp add: nested_name_holds)
  qed
  then show ?thesis
    by (simp add: extract_name_def normalize_name_ident [OF assms(2)])
qed

lemma probe_attrs_first_truthy:
  "probe_attrs tool_call attrs = first_truthy (map (getattr tool_call) attrs)"
  by (induction attrs) (simp_all add: Let_def)

lemma probe_order:
  "fst (probe tool_call) =
     first_truthy
       [entry tool_call ''name'', entry tool_call ''tool'',
        if is_str (entry tool_call ''function'') then entry tool_call ''function'' else PNone,
        getattr tool_call ''name'', getattr tool_call ''tool'',
        getattr tool_call ''function'', getattr tool_call ''tool_name'']"
proof -
  define an where "an = getattr tool_call ''name''"
  define at where "at = getattr tool_call ''tool''"
  define af where "af = getattr tool_call ''function''"
  define atn where "atn = getattr tool_call ''tool_name''"
  have p: "probe_attrs tool_call name_attrs = first_truthy [an, at, af, atn]"
    by (simp add: probe_attrs_first_truthy name_attrs_def an_def at_def af_def atn_def)
  show ?thesis
  proof (cases "to_tc_dict tool_call")
    case (PDict d)
    define en where "en = dict_get d ''name''"
    define et where "et = dict_get d ''tool''"
    define ef where "ef = dict_get d ''function''"
    have e: "entry tool_call ''name'' = en" "entry tool_call ''tool'' = et"
            "entry tool_call ''function'' = ef"
      by (simp_all add: entry_def PDict en_def et_def ef_def)
    have "fst (probe tool_call) =
            (let dict_name = py_or (py_or en et) (if is_str ef then ef else PNone)
             in if truthy dict_name then dict_name else first_truthy [an, at, af, atn])"
      by (simp add: probe_def prefer_dict_def PDict p Let_def en_def et_def ef_def)
    then show ?thesis
      unfolding e an_def [symmetric] at_def [symmetric] af_def [symmetric] atn_def [symmetric]
      by (simp add: py_or_def Let_def)
  qed (simp_all add: probe_def prefer_dict_def entry_def p an_def at_def af_def atn_def)
qed

text \<open>
  C3, as the code has it. When a tool call exposes a name of name characters at exactly
  one of the probed locations, the extracted name is that name, whichever location it
  is. The probed locations are the attributes \<^verbatim>\<open>name\<close>, \<^verbatim>\<open>tool\<close>, \<^verbatim>\<open>function\<close> and
  \<^verbatim>\<open>tool_name\<close> (the value a string, or the name one level inside it), and the entries
  of the dictionary form under \<^verbatim>\<open>name\<close> and \<^verbatim>\<open>tool\<close> (a string, or the name one level
  inside) and under \<^verbatim>\<open>function\<close> (a string only). The probe takes the first truthy
  value of a fixed ordered list: the entries \<^verbatim>\<open>name\<close>, \<^verbatim>\<open>tool\<close> and \<^verbatim>\<open>function\<close> (if a
  string) of the dictionary form, then the attributes \<^verbatim>\<open>name\<close>, \<^verbatim>\<open>tool\<close>,
  \<^verbatim>\<open>function\<close> and \<^verbatim>\<open>tool_name\<close>.
\<close>

theorem name_location_independent:
  assumes "n \<noteq> []" and "list_all is_ident_char n" and "exposes tool_call loc n"
  shows "extract_name tool_call = n \<and>
         fst (probe tool_call) =
           first_truthy
             [entry tool_call ''name'', entry tool_call ''tool'',
              if is_str (entry tool_call ''function'') then entry tool_call ''function'' else PNone,
              getattr tool_call ''name'', getattr tool_call ''tool'',
              getattr tool_call ''function'', getattr tool_call ''tool_name'']"
  using extract_name_exposed [OF assms] probe_order [of tool_call] by (rule conjI)

theorem name_location_independent_witness:
  "extract_name (sdk_tool_call ''search_emails'' ''{}'') = ''search_emails'' \<and>
   extract_name (plain_call [(''tool_name'', PStr ''search_emails'')]) = ''search_emails'' \<and>
   extract_name (PDict [(''tool'', PStr ''search_emails'')]) = ''search_emails'' \<and>
   extract_name (PDict [(''function'', PStr ''search_emails'')]) = ''search_emails''"
proof -
  have n: "''search_emails'' \<noteq> []" by simp
  show ?thesis
    by (intro conjI
          name_location_independent [OF n ident_search_emails exposes_examples(1), THEN conjunct1]
          name_location_independent [OF n ident_search_emails exposes_examples(2), THEN conjunct1]
          name_location_independent [OF n ident_search_emails exposes_examples(3), THEN conjunct1]
          name_location_independent [OF n ident_search_emails exposes_examples(4), THEN conjunct1])
qed


text \<open>
  C3 as stated fails: a dictionary entry under the key \<^verbatim>\<open>tool_name\<close> is not probed (the
  extracted name is the text \<^verbatim>\<open>None\<close>, where the attribute \<^verbatim>\<open>tool_name\<close> gives the
  name), and an entry under \<^verbatim>\<open>function\<close> that holds the name one level inside is not
  probed either.
\<close>

theorem dict_entries_not_probed:
  "extract_name (PDict [(''tool_name'', PStr ''search_emails'')]) = ''None'' \<and>
   extract_name (plain_call [(''tool_name'', PStr ''search_emails'')]) = ''search_emails'' \<and>
   extract_name (PDict [(''function'', PDict [(''name'', PStr ''search_emails'')])]) = ''None''"
  by code_simp


subsection \<open>Exceptions of resolution\<close>

lemma extract_call_unguarded:
  "extract_call (PObj [(''name'', PStr ''search_emails'')] (MReturns (PList [])) NoMethod None s r)
     = Inl AttributeError"
  by code_simp

lemma convert_raw_args_returns:
  "is_dict tc_dict \<or> raw_args \<noteq> PNone \<Longrightarrow> \<exists>v. convert_raw_args tc_dict raw_args = Inr v"
  by (cases tc_dict) (auto simp: convert_raw_args_def split: sum.splits)

lemma resolve_returns:
  assumes "is_dict (to_tc_dict tool_call) \<or> snd (probe tool_call) \<noteq> PNone"
  shows "\<exists>res. resolve jl question tool_call = Inr res"
proof -
  from convert_raw_args_returns [OF assms] obtain v where
    "convert_raw_args (to_tc_dict tool_call) (snd (probe tool_call)) = Inr v" by blast
  then show ?thesis by (simp add: resolve_def extract_call_def)
qed

text \<open>
  C2 fails on the code. For a tool call whose \<^verbatim>\<open>model_dump()\<close> returns a list and which
  has no \<^verbatim>\<open>arguments\<close> or \<^verbatim>\<open>args\<close> attribute, the \<^verbatim>\<open>.get\<close> of line 142 raises
  AttributeError outside every \<^verbatim>\<open>try\<close>, and the exception leaves resolution. (By
  \<open>resolve_returns\<close>, resolution returns whenever the dictionary form is a dictionary or
  raw arguments were found.)
\<close>

theorem unguarded_get_raises:
  "resolve jl question
     (PObj [(''name'', PStr ''search_emails'')] (MReturns (PList [])) NoMethod None s r)
     = Inl AttributeError"
  by (simp add: resolve_def extract_call_unguarded)


end
